theory Spec2Isabelle
  imports Main
begin

section \<open>The transaction-compacting Postgres adapter (src/src/pg-adapter.ts)\<close>

subsection \<open>Data model\<close>

text \<open>
  \<open>Query\<close> of the driver-adapter interface: the SQL text and its bind values. The
  values are opaque to the adapter, so their type is a parameter.
\<close>

record 'v query =
  sql :: string
  args :: "'v list"

text \<open>
  A JavaScript value as far as \<open>typeof\<close> on a property of a caught exception can tell.
\<close>

datatype jsval = JUndefined | JNull | JBool bool | JNum int | JStr string

text \<open>
  What a \<open>catch (e: any)\<close> can receive: an object, of which \<open>performIO\<close> reads the six
  properties below (an absent property reads as \<open>undefined\<close>), or a primitive value,
  all of whose properties read as \<open>undefined\<close>.
\<close>

datatype thrown =
  ErrorObject (e_code: jsval) (e_severity: jsval) (e_message: jsval)
              (e_detail: jsval) (e_column: jsval) (e_hint: jsval)
  | Primitive jsval

text \<open>The error value \<open>{ kind: 'Postgres', code, severity, message, detail, column, hint }\<close>.\<close>

datatype db_error =
  Postgres (code: string) (severity: string) (message: string)
           (detail: jsval) (column: jsval) (hint: jsval)

text \<open>\<open>Result<T>\<close> of the driver-adapter utilities, built by \<open>ok\<close> and \<open>err\<close>.\<close>

datatype 'a Result = ok 'a | err db_error

text \<open>
  What the physical connection has been asked to do, in order: every call of
  \<open>client.query\<close> with the text and values passed, and every call of \<open>client.release\<close>.
\<close>

datatype 'v event = Query string "'v list" | Release

text \<open>The two calls of the logger of \<open>./logger\<close>, recorded in order.\<close>

datatype log_line = LogDebug string "nat option" | LogInfo string

text \<open>
  The object held in \<open>this.client\<close>. For a \<open>TransactionClient\<close> the property
  \<open>previousQueries\<close> is an array; for the pool (\<open>StdClient\<close>) it is undefined, here
  \<open>None\<close>, and \<open>readyToExecuteTransaction\<close>, undefined there, is read only for its
  truthiness. \<open>wire\<close> and \<open>logged\<close> are the effects on the connection and the logger.
\<close>

record 'v client =
  previousQueries :: "'v query list option"
  readyToExecuteTransaction :: bool
  logQueries :: bool
  wire :: "'v event list"
  logged :: "log_line list"

text \<open>
  The context payload, a JavaScript object with string values, as the list of its
  properties in enumeration order (each key once); \<open>{ SQL: sql, ...o }\<close> creates \<open>SQL\<close>
  and then assigns the properties of \<open>o\<close> one by one, an assignment to an existing key
  replacing its value in place.
\<close>

type_synonym payload = "(string \<times> string) list"

fun assign :: "string \<Rightarrow> string \<Rightarrow> payload \<Rightarrow> payload" where
  "assign k v [] = [(k, v)]"
| "assign k v (p # ps) = (if fst p = k then (k, v) # ps else p # assign k v ps)"

definition spread :: "payload \<Rightarrow> payload \<Rightarrow> payload" where
  "spread base src = fold (\<lambda>(k, v). assign k v) src base"

text \<open>
  The imports of \<open>./pg-utils\<close> and \<open>./conversion\<close> are not part of the sources at hand;
  the adapter is modelled over any choice of them. \<open>sqlCommentToContext\<close> may throw.
\<close>

record ('v, 'r) pg_utils =
  EMPTY_RESULT :: 'r
  contextToSqlComment :: "payload \<Rightarrow> string"
  sqlCommentToContext :: "string \<Rightarrow> thrown + payload"
  isContextComment :: "string \<Rightarrow> bool"
  isWriteQuery :: "string \<Rightarrow> bool"
  isBeginQuery :: "string \<Rightarrow> bool"
  isCommitQuery :: "string \<Rightarrow> bool"
  fixArrayBufferValues :: "'v list \<Rightarrow> 'v list"

text \<open>
  The physical connection answers a call of \<open>client.query\<close> with a result or by
  throwing; the answer may depend on everything it was asked before.
\<close>

type_synonym ('v, 'r) connection = "'v event list \<Rightarrow> string \<Rightarrow> 'v list \<Rightarrow> thrown + 'r"

text \<open>
  It answers a call of \<open>client.release\<close> by returning (\<open>None\<close>) or by throwing; this too
  may depend on everything it was asked before.
\<close>

type_synonym 'v releasing = "'v event list \<Rightarrow> thrown option"

subsection \<open>The adapter\<close>

definition logger_debug :: "bool \<Rightarrow> log_line \<Rightarrow> 'v client \<Rightarrow> 'v client" where
  "logger_debug enabled l c = (if enabled then c\<lparr>logged := logged c @ [l]\<rparr> else c)"

text \<open>JavaScript truthiness of \<open>previousQueries.find(...)?.sql\<close>: a non-empty string.\<close>

definition truthy :: "string option \<Rightarrow> bool" where
  "truthy s = (case s of None \<Rightarrow> False | Some t \<Rightarrow> t \<noteq> [])"

text \<open>
  Lines 180 to 215 of \<open>compactPerformIOResult\<close>: log the final text when logging is on,
  then \<open>client.query\<close> with the text and the fixed values. The type parsers passed along
  only configure how the driver reads rows.
\<close>

definition client_query ::
  "('v, 'r) pg_utils \<Rightarrow> ('v, 'r) connection \<Rightarrow> string \<Rightarrow> 'v list \<Rightarrow> 'v client
     \<Rightarrow> (thrown + 'r) \<times> 'v client" where
  "client_query U db text values c =
     (let c1 = logger_debug (logQueries c) (LogInfo text) c;
          vs = fixArrayBufferValues U values
      in (db (wire c1) text vs, c1\<lparr>wire := wire c1 @ [Query text vs]\<rparr>))"

text \<open>
  Lines 176 to 215, as reached inside \<open>if (previousQueries)\<close>: a context comment is
  answered with \<open>EMPTY_RESULT\<close>, anything else goes to the connection.
\<close>

definition skip_context_or_query ::
  "('v, 'r) pg_utils \<Rightarrow> ('v, 'r) connection \<Rightarrow> string \<Rightarrow> string \<Rightarrow> 'v list \<Rightarrow> 'v client
     \<Rightarrow> (thrown + 'r) \<times> 'v client" where
  "skip_context_or_query U db sql0 text values c =
     (if isContextComment U sql0 then (Inr (EMPTY_RESULT U), c)
      else client_query U db text values c)"

text \<open>Line 146: \<open>previousQueries.find((q) => isContextComment(q.sql))?.sql\<close>.\<close>

definition previous_context_comment ::
  "('v, 'r) pg_utils \<Rightarrow> 'v query list \<Rightarrow> string option" where
  "previous_context_comment U previous =
     map_option sql (find (\<lambda>q. isContextComment U (sql q)) previous)"

text \<open>Lines 145 to 150: the text to execute, or the exception of the decoder.\<close>

definition rewritten_text ::
  "('v, 'r) pg_utils \<Rightarrow> 'v query list \<Rightarrow> string \<Rightarrow> thrown + string" where
  "rewritten_text U previous sql0 =
     (let isWrite = isWriteQuery U sql0;
          previousContextComment = previous_context_comment U previous
      in if truthy previousContextComment \<and> isWrite
         then (case sqlCommentToContext U (the previousContextComment) of
                 Inl e \<Rightarrow> Inl e
               | Inr context \<Rightarrow>
                   Inr (sql0 @ '' '' @ contextToSqlComment U (spread [(''SQL'', sql0)] context)))
         else Inr sql0)"

text \<open>
  The test of the \<open>catch\<close> block of \<open>performIO\<close> (line 114), and the error value
  it builds (lines 115 to 123).
\<close>

fun is_string :: "jsval \<Rightarrow> bool" where
  "is_string (JStr s) = True"
| "is_string v = False"

fun the_string :: "jsval \<Rightarrow> string" where
  "the_string (JStr s) = s"
| "the_string v = []"

fun database_reported :: "thrown \<Rightarrow> bool" where
  "database_reported (ErrorObject c s m d col h) = (is_string c \<and> is_string s \<and> is_string m)"
| "database_reported (Primitive v) = False"

definition to_db_error :: "thrown \<Rightarrow> db_error" where
  "to_db_error e = Postgres (the_string (e_code e)) (the_string (e_severity e))
                            (the_string (e_message e)) (e_detail e) (e_column e) (e_hint e)"

text \<open>
  The \<open>try\<close> and \<open>catch\<close> of \<open>performIO\<close> (lines 104 to 126), applied to what
  \<open>compactPerformIOResult\<close> returned or threw.
\<close>

definition try_catch :: "thrown + 'r \<Rightarrow> thrown + 'r Result" where
  "try_catch outcome =
     (case outcome of
        Inr result \<Rightarrow> Inr (ok result)
      | Inl e \<Rightarrow> if database_reported e then Inr (err (to_db_error e)) else Inl e)"

text \<open>
  \<open>performIO\<close> (lines 101 to 127), \<open>compactPerformIOResult\<close> (lines 130 to 216) and the
  \<open>for\<close> loop of lines 170 to 172, which calls \<open>performIO\<close> again and drops what it
  returns. The result is the value returned or the exception thrown, with the client
  after the call.
\<close>

function
  performIO ::
    "('v, 'r) pg_utils \<Rightarrow> ('v, 'r) connection \<Rightarrow> 'v query \<Rightarrow> bool \<Rightarrow> 'v client
       \<Rightarrow> (thrown + 'r Result) \<times> 'v client"
and compactPerformIOResult ::
    "('v, 'r) pg_utils \<Rightarrow> ('v, 'r) connection \<Rightarrow> 'v query \<Rightarrow> bool \<Rightarrow> 'v client
       \<Rightarrow> (thrown + 'r) \<times> 'v client"
and catch_up ::
    "('v, 'r) pg_utils \<Rightarrow> ('v, 'r) connection \<Rightarrow> 'v query list \<Rightarrow> 'v client
       \<Rightarrow> (thrown + unit) \<times> 'v client"
where
  "performIO U db query catchingUp c =
     (case compactPerformIOResult U db query catchingUp c of
        (outcome, c') \<Rightarrow> (try_catch outcome, c'))"
| "compactPerformIOResult U db query catchingUp c =
     (let c1 = logger_debug (logQueries c \<and> \<not> catchingUp)
                 (LogDebug (sql query) (map_option length (previousQueries c))) c
      in case previousQueries c1 of
           None \<Rightarrow> client_query U db (sql query) (args query) c1
         | Some previous \<Rightarrow>
             (case rewritten_text U previous (sql query) of
                Inl e \<Rightarrow> (Inl e, c1)
              | Inr text \<Rightarrow>
                  let isContext = isContextComment U (sql query);
                      isWrite = isWriteQuery U (sql query);
                      previousContextComment = previous_context_comment U previous;
                      queries = (if \<not> catchingUp then previous @ [query] else previous);
                      c2 = c1\<lparr>previousQueries := Some queries\<rparr>
                  in if \<not> readyToExecuteTransaction c then
                       if isBeginQuery U (sql query) \<and> length queries = 1
                         then (Inr (EMPTY_RESULT U), c2)
                       else if isCommitQuery U (sql query) \<and> truthy previousContextComment
                               \<and> length queries = 4
                         then (Inr (EMPTY_RESULT U), c2)
                       else if (length queries = 2 \<and> \<not> isContext)
                               \<or> (length queries = 3 \<and> \<not> isWrite)
                         then (case catch_up U db (butlast queries)
                                      (c2\<lparr>readyToExecuteTransaction := True\<rparr>) of
                                 (Inl e, c3) \<Rightarrow> (Inl e, c3)
                               | (Inr u, c3) \<Rightarrow>
                                   skip_context_or_query U db (sql query) text (args query) c3)
                       else skip_context_or_query U db (sql query) text (args query) c2
                     else skip_context_or_query U db (sql query) text (args query) c2))"
| "catch_up U db [] c = (Inr (), c)"
| "catch_up U db (prevQuery # rest) c =
     (case performIO U db prevQuery True c of
        (Inl e, c') \<Rightarrow> (Inl e, c')
      | (Inr r, c') \<Rightarrow> catch_up U db rest c')"
  by pat_completeness auto

text \<open>
  \<open>PrismaPg.transactionContext\<close> (lines 298 to 307): the client that the pool's
  \<open>connect\<close> hands out gets an empty array, the adapter's logging flag and a false
  \<open>readyToExecuteTransaction\<close>.
\<close>

definition transactionContext :: "bool \<Rightarrow> 'v client \<Rightarrow> 'v client" where
  "transactionContext adapterLogQueries conn =
     conn\<lparr>previousQueries := Some [], logQueries := adapterLogQueries,
          readyToExecuteTransaction := False\<rparr>"

text \<open>
  \<open>PgTransaction.commit\<close> and \<open>rollback\<close> (lines 227 to 239): \<open>client.release()\<close> is
  called, with no test before it and no \<open>try\<close> around it. When it returns, the method
  returns \<open>ok(undefined)\<close>; when it throws, the exception leaves the method.
\<close>

definition commit ::
  "'v releasing \<Rightarrow> 'v client \<Rightarrow> (thrown + unit Result) \<times> 'v client" where
  "commit release c =
     (case release (wire c) of None \<Rightarrow> Inr (ok ()) | Some e \<Rightarrow> Inl e,
      c\<lparr>wire := wire c @ [Release]\<rparr>)"

definition rollback ::
  "'v releasing \<Rightarrow> 'v client \<Rightarrow> (thrown + unit Result) \<times> 'v client" where
  "rollback release c =
     (case release (wire c) of None \<Rightarrow> Inr (ok ()) | Some e \<Rightarrow> Inl e,
      c\<lparr>wire := wire c @ [Release]\<rparr>)"

text \<open>
  A caller submitting statements one after the other (\<open>queryRaw\<close> and \<open>executeRaw\<close>
  both call \<open>performIO(query)\<close>, with \<open>catchingUp\<close> at its default): the outcomes in
  order, and the client at the end.
\<close>

fun submit ::
  "('v, 'r) pg_utils \<Rightarrow> ('v, 'r) connection \<Rightarrow> 'v query list \<Rightarrow> 'v client
     \<Rightarrow> (thrown + 'r Result) list \<times> 'v client" where
  "submit U db [] c = ([], c)"
| "submit U db (q # qs) c =
     (case performIO U db q False c of
        (r, c') \<Rightarrow> (case submit U db qs c' of (rs, c'') \<Rightarrow> (r # rs, c'')))"

text \<open>
  The history of a connection with a release recorded after its first \<open>n\<close> events, and
  a client whose connection has that history.
\<close>

definition released_at :: "nat \<Rightarrow> 'v event list \<Rightarrow> 'v event list" where
  "released_at n history = take n history @ Release # drop n history"

definition rewire :: "nat \<Rightarrow> 'v client \<Rightarrow> 'v client" where
  "rewire n c = c\<lparr>wire := released_at n (wire c)\<rparr>"

subsection \<open>An instance of the absent helpers, for running the adapter\<close>

text \<open>
  Modelled from the spec: the statement classifier of \<open>./pg-utils\<close> (section 4.1), which
  is not among the sources. Matching is on the leading keyword, case-insensitive, after
  any leading whitespace; a context marker is recognised by its comment prefix.
\<close>

definition upper :: "char \<Rightarrow> char" where
  "upper ch =
     (case map_of (zip ''abcdefghijklmnopqrstuvwxyz'' ''ABCDEFGHIJKLMNOPQRSTUVWXYZ'') ch of
        None \<Rightarrow> ch
      | Some u \<Rightarrow> u)"

definition is_space :: "char \<Rightarrow> bool" where
  "is_space ch = (ch = CHR '' '' \<or> ch = CHR 0x09 \<or> ch = CHR 0x0A \<or> ch = CHR 0x0D)"

definition leading_keyword :: "string \<Rightarrow> string" where
  "leading_keyword s =
     map upper (takeWhile (\<lambda>ch. \<not> is_space ch \<and> ch \<noteq> CHR '';'') (dropWhile is_space s))"

definition marker_prefix :: string where
  "marker_prefix = ''-- ctx:''"

definition is_marker :: "string \<Rightarrow> bool" where
  "is_marker s = (take (length marker_prefix) (dropWhile is_space s) = marker_prefix)"

text \<open>
  Modelled from the spec: the context codec of \<open>./pg-utils\<close> (section 4.2 and the
  scenario of section 8), which is not among the sources. A payload is written after
  the marker prefix as \<open>{k:v,...}\<close> with each key and value between double quotes;
  decoding a text of any other form fails.
\<close>

definition quoted :: "string \<Rightarrow> string" where
  "quoted s = CHR 0x22 # s @ [CHR 0x22]"

fun encode_fields :: "payload \<Rightarrow> string" where
  "encode_fields [] = []"
| "encode_fields [(k, v)] = quoted k @ '':'' @ quoted v"
| "encode_fields ((k, v) # kvs) = quoted k @ '':'' @ quoted v @ '','' @ encode_fields kvs"

definition encode :: "payload \<Rightarrow> string" where
  "encode p = marker_prefix @ ''{'' @ encode_fields p @ ''}''"

datatype scanning =
  BeforeKey | InKey string | BeforeColon string | BeforeValue string
  | InValue string string | AfterValue | AtEnd

fun scan :: "scanning \<Rightarrow> payload \<Rightarrow> string \<Rightarrow> payload option" where
  "scan AtEnd acc [] = Some acc"
| "scan st acc [] = None"
| "scan BeforeKey acc (ch # cs) =
     (if ch = CHR 0x22 then scan (InKey []) acc cs
      else if ch = CHR ''}'' \<and> acc = [] then scan AtEnd acc cs
      else None)"
| "scan (InKey k) acc (ch # cs) =
     (if ch = CHR 0x22 then scan (BeforeColon k) acc cs else scan (InKey (k @ [ch])) acc cs)"
| "scan (BeforeColon k) acc (ch # cs) =
     (if ch = CHR '':'' then scan (BeforeValue k) acc cs else None)"
| "scan (BeforeValue k) acc (ch # cs) =
     (if ch = CHR 0x22 then scan (InValue k []) acc cs else None)"
| "scan (InValue k v) acc (ch # cs) =
     (if ch = CHR 0x22 then scan AfterValue (acc @ [(k, v)]) cs
      else scan (InValue k (v @ [ch])) acc cs)"
| "scan AfterValue acc (ch # cs) =
     (if ch = CHR '','' then scan BeforeKey acc cs
      else if ch = CHR ''}'' then scan AtEnd acc cs
      else None)"
| "scan AtEnd acc (ch # cs) = None"

definition syntax_error :: thrown where
  "syntax_error =
     ErrorObject JUndefined JUndefined (JStr ''malformed context marker'')
                 JUndefined JUndefined JUndefined"

definition decode :: "string \<Rightarrow> thrown + payload" where
  "decode s =
     (let t = dropWhile is_space s
      in if take (length marker_prefix + 1) t = marker_prefix @ ''{''
         then (case scan BeforeKey [] (drop (length marker_prefix + 1) t) of
                 None \<Rightarrow> Inl syntax_error
               | Some p \<Rightarrow> if distinct (map fst p) then Inr p else Inl syntax_error)
         else Inl syntax_error)"

text \<open>
  Modelled from the spec: \<open>EMPTY_RESULT\<close> of \<open>./pg-utils\<close> (an empty result: no row
  count, no columns, no rows) and \<open>fixArrayBufferValues\<close> of \<open>./conversion\<close>, which leaves
  values that hold no array buffer as they are.
\<close>

record 'v rows_result =
  rowCount :: "nat option"
  columns :: "string list"
  rows :: "'v list list"

definition utils :: "(jsval, jsval rows_result) pg_utils" where
  "utils =
     \<lparr>EMPTY_RESULT = \<lparr>rowCount = None, columns = [], rows = []\<rparr>,
      contextToSqlComment = encode,
      sqlCommentToContext = decode,
      isContextComment = is_marker,
      isWriteQuery = (\<lambda>s. leading_keyword s \<in> set [''INSERT'', ''UPDATE'', ''DELETE'']),
      isBeginQuery = (\<lambda>s. leading_keyword s = ''BEGIN''),
      isCommitQuery = (\<lambda>s. leading_keyword s = ''COMMIT''),
      fixArrayBufferValues = (\<lambda>vs. vs)\<rparr>"

text \<open>Connections to run against, and a client as the pool hands it out.\<close>

definition one_row :: "jsval rows_result" where
  "one_row = \<lparr>rowCount = Some 1, columns = [], rows = []\<rparr>"

definition healthy :: "(jsval, jsval rows_result) connection" where
  "healthy history text values = Inr one_row"

definition too_many_connections :: thrown where
  "too_many_connections =
     ErrorObject (JStr ''53300'') (JStr ''FATAL'') (JStr ''too many connections'')
                 JUndefined JUndefined JUndefined"

definition rejecting_begin :: "(jsval, jsval rows_result) connection" where
  "rejecting_begin history text values =
     (if leading_keyword text = ''BEGIN'' then Inl too_many_connections else Inr one_row)"

definition connection_reset :: thrown where
  "connection_reset =
     ErrorObject (JStr ''ECONNRESET'') JUndefined (JStr ''read ECONNRESET'')
                 JUndefined JUndefined JUndefined"

definition resetting_on_begin :: "(jsval, jsval rows_result) connection" where
  "resetting_on_begin history text values =
     (if leading_keyword text = ''BEGIN'' then Inl connection_reset else Inr one_row)"

text \<open>
  A release that returns, and one that returns the first time and throws when the client
  has been released before, as a client of the driver's pool does.
\<close>

definition releasing_always :: "jsval releasing" where
  "releasing_always history = None"

definition already_released :: thrown where
  "already_released =
     ErrorObject JUndefined JUndefined
       (JStr ''Release called on client which has already been released to the pool.'')
       JUndefined JUndefined JUndefined"

definition releasing_once :: "jsval releasing" where
  "releasing_once history = (if Release \<in> set history then Some already_released else None)"

text \<open>A connection on which an \<open>UPDATE\<close> violates a unique constraint.\<close>

definition duplicate_key :: thrown where
  "duplicate_key =
     ErrorObject (JStr ''23505'') (JStr ''ERROR'')
       (JStr ''duplicate key value violates unique constraint'')
       (JStr ''Key (x)=(1) already exists.'') JUndefined JUndefined"

definition rejecting_update :: "(jsval, jsval rows_result) connection" where
  "rejecting_update history text values =
     (if leading_keyword text = ''UPDATE'' then Inl duplicate_key else Inr one_row)"

definition pooled :: "jsval client" where
  "pooled = \<lparr>previousQueries = None, readyToExecuteTransaction = False, logQueries = False,
             wire = [], logged = []\<rparr>"

definition statement :: "string \<Rightarrow> jsval query" where
  "statement s = \<lparr>sql = s, args = []\<rparr>"

text \<open>A session materialized by its second statement.\<close>

definition begin_select :: "jsval client" where
  "begin_select =
     snd (submit utils healthy [statement ''BEGIN'', statement ''SELECT 1'']
            (transactionContext False pooled))"

text \<open>
  A session with two context comments, the second submitted after a first write.
\<close>

definition two_markers :: "jsval client" where
  "two_markers =
     snd (submit utils healthy
            [statement ''BEGIN'', statement (encode [(''user'', ''1'')]),
             statement ''UPDATE t SET x=1'', statement (encode [(''user'', ''2'')])]
            (transactionContext False pooled))"

text \<open>A materialized session whose array holds a context comment.\<close>

definition marked_select :: "jsval client" where
  "marked_select =
     snd (submit utils healthy
            [statement ''BEGIN'', statement (encode [(''user'', ''1'')]), statement ''SELECT 1'']
            (transactionContext False pooled))"

text \<open>A session in which a context comment has just been submitted.\<close>

definition context_given :: "jsval client" where
  "context_given =
     snd (submit utils healthy [statement ''BEGIN'', statement (encode [(''user'', ''1'')])]
            (transactionContext False pooled))"

subsection \<open>Termination\<close>

text \<open>
  The recursion ends: the loop runs only in a call that found the flag
  \<open>readyToExecuteTransaction\<close> false, and sets it before it starts; no call resets it.
\<close>

lemma logger_debug_fields [simp]:
  "previousQueries (logger_debug b l c) = previousQueries c"
  "readyToExecuteTransaction (logger_debug b l c) = readyToExecuteTransaction c"
  "logQueries (logger_debug b l c) = logQueries c"
  "wire (logger_debug b l c) = wire c"
  by (simp_all add: logger_debug_def)

lemma client_query_fields [simp]:
  "previousQueries (snd (client_query U db t vs c)) = previousQueries c"
  "readyToExecuteTransaction (snd (client_query U db t vs c)) = readyToExecuteTransaction c"
  "logQueries (snd (client_query U db t vs c)) = logQueries c"
  "wire (snd (client_query U db t vs c)) = wire c @ [Query t (fixArrayBufferValues U vs)]"
  "fst (client_query U db t vs c) = db (wire c) t (fixArrayBufferValues U vs)"
  by (simp_all add: client_query_def Let_def)

lemma skip_context_or_query_fields [simp]:
  "previousQueries (snd (skip_context_or_query U db s t vs c)) = previousQueries c"
  "readyToExecuteTransaction (snd (skip_context_or_query U db s t vs c))
     = readyToExecuteTransaction c"
  "logQueries (snd (skip_context_or_query U db s t vs c)) = logQueries c"
  by (simp_all add: skip_context_or_query_def)

lemma ready_kept_partial:
  "performIO_compactPerformIOResult_catch_up_dom (Inl (U, db, q, cu, c)) \<Longrightarrow>
     readyToExecuteTransaction c \<longrightarrow>
     readyToExecuteTransaction (snd (performIO U db q cu c))"
  "performIO_compactPerformIOResult_catch_up_dom (Inr (Inl (U, db, q, cu, c))) \<Longrightarrow>
     readyToExecuteTransaction c \<longrightarrow>
     readyToExecuteTransaction (snd (compactPerformIOResult U db q cu c))"
  "performIO_compactPerformIOResult_catch_up_dom (Inr (Inr (U, db, qs, c))) \<Longrightarrow>
     readyToExecuteTransaction c \<longrightarrow>
     readyToExecuteTransaction (snd (catch_up U db qs c))"
proof (induct rule: performIO_compactPerformIOResult_catch_up.pinduct)
  case (1 U db query catchingUp c)
  then show ?case
    by (auto simp: performIO.psimps split: prod.splits sum.splits)
next
  case (2 U db query catchingUp c)
  show ?case
    by (auto simp: compactPerformIOResult.psimps[OF 2(1)] Let_def
             split: option.splits sum.splits)
next
  case (3 U db c)
  then show ?case by (simp add: catch_up.psimps)
next
  case (4 U db prevQuery rest c)
  then show ?case
    by (auto simp: catch_up.psimps split: prod.splits sum.splits)
qed

termination performIO
proof (relation "measures
   [\<lambda>x. case x of
          Inl (U, db, q, cu, c) \<Rightarrow> if readyToExecuteTransaction c then 0 else 1
        | Inr (Inl (U, db, q, cu, c)) \<Rightarrow> if readyToExecuteTransaction c then 0 else 1
        | Inr (Inr (U, db, qs, c)) \<Rightarrow> if readyToExecuteTransaction c then 0 else (1::nat),
    \<lambda>x. case x of Inl a \<Rightarrow> 1 | Inr (Inl a) \<Rightarrow> 0 | Inr (Inr a) \<Rightarrow> (2::nat),
    \<lambda>x. case x of Inr (Inr (U, db, qs, c)) \<Rightarrow> length qs | _ \<Rightarrow> 0]", goal_cases)
  case 1
  then show ?case by simp
next
  case (2 U db query catchingUp c)
  then show ?case by simp
next
  case (3 U db query catchingUp c x x2 b xa xb xc xd xe)
  then show ?case by simp
next
  case (4 U db prevQuery rest c)
  then show ?case by simp
next
  case (5 U db prevQuery rest c x y b)
  then show ?case
    using ready_kept_partial(1)[of U db prevQuery True c]
    by (auto split: if_splits) (metis snd_conv)+
qed

declare performIO.simps [simp del] compactPerformIOResult.simps [simp del]

subsection \<open>Unfolding the adapter\<close>

lemma performIO_eq:
  "performIO U db q cu c =
     (try_catch (fst (compactPerformIOResult U db q cu c)),
      snd (compactPerformIOResult U db q cu c))"
  by (simp add: performIO.simps split: prod.splits)

lemma ready_kept:
  "readyToExecuteTransaction c \<longrightarrow>
     readyToExecuteTransaction (snd (performIO U db q cu c))"
  "readyToExecuteTransaction c \<longrightarrow>
     readyToExecuteTransaction (snd (compactPerformIOResult U db q cu c))"
  "readyToExecuteTransaction c \<longrightarrow>
     readyToExecuteTransaction (snd (catch_up U db qs c))"
proof (induct U db q cu c and U db q cu c and U db qs c
       rule: performIO_compactPerformIOResult_catch_up.induct)
  case (1 U db query catchingUp c)
  then show ?case
    by (simp add: performIO_eq)
next
  case (2 U db query catchingUp c)
  show ?case
    by (auto simp: compactPerformIOResult.simps Let_def split: option.splits sum.splits)
next
  case (3 U db c)
  then show ?case by simp
next
  case (4 U db prevQuery rest c)
  then show ?case
    by (auto split: prod.splits sum.splits)
qed

text \<open>On the pool, where \<open>previousQueries\<close> is undefined, every query goes straight through.\<close>

lemma compact_pool:
  "previousQueries c = None \<Longrightarrow>
   compactPerformIOResult U db q cu c =
     client_query U db (sql q) (args q)
       (logger_debug (logQueries c \<and> \<not> cu) (LogDebug (sql q) None) c)"
  by (simp add: compactPerformIOResult.simps Let_def)

text \<open>Once the flag is set, lines 157 to 174 are skipped.\<close>

lemma compact_ready:
  "readyToExecuteTransaction c \<Longrightarrow> previousQueries c = Some prev \<Longrightarrow>
   compactPerformIOResult U db q cu c =
     (case rewritten_text U prev (sql q) of
        Inl e \<Rightarrow>
          (Inl e, logger_debug (logQueries c \<and> \<not> cu)
                    (LogDebug (sql q) (Some (length prev))) c)
      | Inr text \<Rightarrow>
          skip_context_or_query U db (sql q) text (args q)
            ((logger_debug (logQueries c \<and> \<not> cu)
                (LogDebug (sql q) (Some (length prev))) c)
               \<lparr>previousQueries := Some (if \<not> cu then prev @ [q] else prev)\<rparr>))"
  by (simp add: compactPerformIOResult.simps Let_def split: sum.splits)

lemma skip_context_or_query_result:
  "fst (skip_context_or_query U db s t vs c) =
     (if isContextComment U s then Inr (EMPTY_RESULT U)
      else db (wire c) t (fixArrayBufferValues U vs))"
  "wire (snd (skip_context_or_query U db s t vs c)) =
     (if isContextComment U s then wire c
      else wire c @ [Query t (fixArrayBufferValues U vs)])"
  by (simp_all add: skip_context_or_query_def)

lemma performIO_ready_result:
  assumes "readyToExecuteTransaction c" and "previousQueries c = Some prev"
  shows "fst (performIO U db q cu c) =
           try_catch
             (case rewritten_text U prev (sql q) of
                Inl e \<Rightarrow> Inl e
              | Inr text \<Rightarrow>
                  if isContextComment U (sql q) then Inr (EMPTY_RESULT U)
                  else db (wire c) text (fixArrayBufferValues U (args q)))"
  using assms
  by (simp add: performIO_eq compact_ready skip_context_or_query_result split: sum.splits)

lemma performIO_ready_wire:
  assumes "readyToExecuteTransaction c" and "previousQueries c = Some prev"
  shows "wire (snd (performIO U db q cu c)) =
           (case rewritten_text U prev (sql q) of
              Inl e \<Rightarrow> wire c
            | Inr text \<Rightarrow>
                if isContextComment U (sql q) then wire c
                else wire c @ [Query text (fixArrayBufferValues U (args q))])"
  using assms
  by (simp add: performIO_eq compact_ready skip_context_or_query_result split: sum.splits)

lemma performIO_ready_previous:
  assumes "readyToExecuteTransaction c" and "previousQueries c = Some prev"
  shows "previousQueries (snd (performIO U db q cu c)) =
           (case rewritten_text U prev (sql q) of
              Inl e \<Rightarrow> Some prev
            | Inr text \<Rightarrow> Some (if \<not> cu then prev @ [q] else prev))"
  using assms
  by (simp add: performIO_eq compact_ready split: sum.splits)

lemma rewritten_text_not_write:
  "\<not> isWriteQuery U s \<Longrightarrow> rewritten_text U prev s = Inr s"
  by (simp add: rewritten_text_def Let_def)

text \<open>The first context comment of the array is the one that \<open>find\<close> returns.\<close>

lemma previous_context_comment_first:
  assumes "\<forall>p\<in>set xs. \<not> isContextComment U (sql p)" and "isContextComment U (sql m)"
  shows "previous_context_comment U (xs @ m # ys) = Some (sql m)"
  using assms by (induction xs) (simp_all add: previous_context_comment_def)

lemma rewritten_text_first:
  assumes "\<forall>p\<in>set xs. \<not> isContextComment U (sql p)" and "isContextComment U (sql m)"
    and "sql m \<noteq> []" and "isWriteQuery U s" and "sqlCommentToContext U (sql m) = Inr context"
  shows "rewritten_text U (xs @ m # ys) s =
           Inr (s @ '' '' @ contextToSqlComment U (spread [(''SQL'', s)] context))"
  using assms
  by (simp add: rewritten_text_def previous_context_comment_first truthy_def Let_def)

text \<open>What \<open>{ SQL: sql, ...context }\<close> holds under each key.\<close>

lemma map_of_assign: "map_of (assign k v ps) = (map_of ps)(k \<mapsto> v)"
  by (induction ps) auto

lemma map_of_spread:
  "distinct (map fst src) \<Longrightarrow> map_of (spread base src) = map_of base ++ map_of src"
proof (induction src arbitrary: base)
  case Nil
  then show ?case by (simp add: spread_def)
next
  case (Cons kv src)
  obtain k v where kv: "kv = (k, v)" by (cases kv)
  from Cons.prems kv have fresh: "k \<notin> fst ` set src" and rest: "distinct (map fst src)"
    by auto
  have "map_of (spread base (kv # src)) = map_of (spread (assign k v base) src)"
    by (simp add: spread_def kv)
  also have "\<dots> = (map_of base)(k \<mapsto> v) ++ map_of src"
    using Cons.IH[OF rest, of "assign k v base"] by (simp only: map_of_assign)
  also have "\<dots> = map_of base ++ map_of (kv # src)"
  proof (rule ext)
    fix x
    show "((map_of base)(k \<mapsto> v) ++ map_of src) x = (map_of base ++ map_of (kv # src)) x"
    proof (cases "x = k")
      case True
      from fresh have "map_of src k = None" by (simp add: map_of_eq_None_iff)
      with True show ?thesis by (simp add: kv map_add_def)
    next
      case False
      then show ?thesis by (simp add: kv map_add_def split: option.splits)
    qed
  qed
  finally show ?case .
qed

lemma try_catch_Inr [simp]: "try_catch (Inr r) = Inr (ok r)"
  by (simp add: try_catch_def)

text \<open>
  A write submitted after a context comment is sent with the comment built from the
  first context comment of the array.
\<close>

lemma write_after_context_sent:
  assumes log: "previousQueries c = Some (xs @ m # ys)"
    and first: "\<forall>p\<in>set xs. \<not> isContextComment U (sql p)"
    and marker: "isContextComment U (sql m)" "sql m \<noteq> []"
    and decoded: "sqlCommentToContext U (sql m) = Inr context"
    and stmt: "isWriteQuery U (sql s)" "\<not> isContextComment U (sql s)"
               "\<not> isCommitQuery U (sql s)"
  shows "wire (snd (performIO U db s False c)) =
           wire c @
           [Query (sql s @ '' '' @ contextToSqlComment U (spread [(''SQL'', sql s)] context))
              (fixArrayBufferValues U (args s))]"
proof -
  let ?text = "sql s @ '' '' @ contextToSqlComment U (spread [(''SQL'', sql s)] context)"
  have rw: "rewritten_text U (xs @ m # ys) (sql s) = Inr ?text"
    using first marker stmt(1) decoded by (rule rewritten_text_first)
  show ?thesis
  proof (cases "readyToExecuteTransaction c")
    case True
    with log rw stmt(2) show ?thesis
      by (simp add: performIO_ready_wire)
  next
    case False
    show ?thesis
    proof (cases "xs = [] \<and> ys = []")
      case True
      with log have single: "previousQueries c = Some [m]" by simp
      have "rewritten_text U [m, s] (sql m) =
              (if isWriteQuery U (sql m)
               then Inr (sql m @ '' '' @ contextToSqlComment U (spread [(''SQL'', sql m)] context))
               else Inr (sql m))"
        using marker decoded
        by (simp add: rewritten_text_def previous_context_comment_def truthy_def Let_def)
      moreover from rw True have "rewritten_text U [m] (sql s) = Inr ?text" by simp
      ultimately show ?thesis
        using False single marker stmt
        by (simp add: performIO_eq compactPerformIOResult.simps Let_def
              skip_context_or_query_def split: prod.splits)
    next
      case longer: False
      then have "length (xs @ m # ys) + 1 \<noteq> 2" by (cases xs; cases ys) simp_all
      with False log rw stmt show ?thesis
        by (auto simp: performIO_eq compactPerformIOResult.simps Let_def
              skip_context_or_query_def)
    qed
  qed
qed

text \<open>
  The replay loop in a session whose flag is set: it leaves the array and the flag as
  they are, every call it makes sends a statement of the replayed list that is not a
  context comment, and an exception it throws is not a database error.
\<close>

lemma catch_up_step:
  "catch_up U db (p # ps) c =
     (case fst (performIO U db p True c) of
        Inl e \<Rightarrow> (Inl e, snd (performIO U db p True c))
      | Inr r \<Rightarrow> catch_up U db ps (snd (performIO U db p True c)))"
  by (simp split: prod.splits sum.splits)

lemma replay_step:
  assumes "readyToExecuteTransaction c" and "previousQueries c = Some log"
  shows "readyToExecuteTransaction (snd (performIO U db p True c))
         \<and> previousQueries (snd (performIO U db p True c)) = Some log
         \<and> (\<forall>e. fst (performIO U db p True c) = Inl e \<longrightarrow> \<not> database_reported e)
         \<and> (wire (snd (performIO U db p True c)) = wire c
            \<or> \<not> isContextComment U (sql p)
              \<and> (\<exists>t. rewritten_text U log (sql p) = Inr t
                     \<and> wire (snd (performIO U db p True c)) =
                         wire c @ [Query t (fixArrayBufferValues U (args p))]))"
proof (intro conjI)
  from assms(1) show "readyToExecuteTransaction (snd (performIO U db p True c))"
    by (simp add: ready_kept(1))
next
  from assms show "previousQueries (snd (performIO U db p True c)) = Some log"
    by (simp add: performIO_ready_previous split: sum.splits)
next
  show "\<forall>e. fst (performIO U db p True c) = Inl e \<longrightarrow> \<not> database_reported e"
    by (simp add: performIO_eq try_catch_def split: sum.splits)
next
  from assms
  show "wire (snd (performIO U db p True c)) = wire c
        \<or> \<not> isContextComment U (sql p)
          \<and> (\<exists>t. rewritten_text U log (sql p) = Inr t
                 \<and> wire (snd (performIO U db p True c)) =
                     wire c @ [Query t (fixArrayBufferValues U (args p))])"
    by (simp add: performIO_ready_wire split: sum.splits)
qed

lemma replay_loop:
  assumes "readyToExecuteTransaction c" and "previousQueries c = Some log"
  shows "readyToExecuteTransaction (snd (catch_up U db ps c))
         \<and> previousQueries (snd (catch_up U db ps c)) = Some log
         \<and> (\<forall>e. fst (catch_up U db ps c) = Inl e \<longrightarrow> \<not> database_reported e)
         \<and> (\<exists>ws. wire (snd (catch_up U db ps c)) = wire c @ ws
                 \<and> (\<forall>ev\<in>set ws. \<exists>p\<in>set ps. \<not> isContextComment U (sql p)
                        \<and> (\<exists>t. rewritten_text U log (sql p) = Inr t
                               \<and> ev = Query t (fixArrayBufferValues U (args p)))))"
  using assms
proof (induction ps arbitrary: c)
  case Nil
  then show ?case by simp
next
  case (Cons p ps)
  let ?r = "performIO U db p True c"
  note step = replay_step [OF Cons.prems, of U db p]
  from step have ready': "readyToExecuteTransaction (snd ?r)"
    and log': "previousQueries (snd ?r) = Some log"
    and thrown': "\<forall>e. fst ?r = Inl e \<longrightarrow> \<not> database_reported e"
    by blast+
  from step obtain w1 where w1: "wire (snd ?r) = wire c @ w1"
    and from1: "\<forall>ev\<in>set w1. \<not> isContextComment U (sql p)
                  \<and> (\<exists>t. rewritten_text U log (sql p) = Inr t
                         \<and> ev = Query t (fixArrayBufferValues U (args p)))"
  proof (elim conjE disjE exE)
    assume "wire (snd ?r) = wire c"
    then have "wire (snd ?r) = wire c @ []" by simp
    then show ?thesis using that [of "[]"] by simp
  next
    fix t
    assume "\<not> isContextComment U (sql p)" "rewritten_text U log (sql p) = Inr t"
      "wire (snd ?r) = wire c @ [Query t (fixArrayBufferValues U (args p))]"
    then show ?thesis using that [of "[Query t (fixArrayBufferValues U (args p))]"] by simp
  qed
  show ?case
  proof (cases "fst ?r")
    case (Inl e)
    then have "catch_up U db (p # ps) c = (Inl e, snd ?r)"
      by (simp only: catch_up_step sum.case)
    with ready' log' thrown' Inl w1 from1 show ?thesis
      by auto
  next
    case (Inr x)
    then have unfold: "catch_up U db (p # ps) c = catch_up U db ps (snd ?r)"
      by (simp only: catch_up_step sum.case)
    from Cons.IH [OF ready' log'] obtain w2
      where rest: "readyToExecuteTransaction (snd (catch_up U db ps (snd ?r)))"
        "previousQueries (snd (catch_up U db ps (snd ?r))) = Some log"
        "\<forall>e. fst (catch_up U db ps (snd ?r)) = Inl e \<longrightarrow> \<not> database_reported e"
        "wire (snd (catch_up U db ps (snd ?r))) = wire (snd ?r) @ w2"
        "\<forall>ev\<in>set w2. \<exists>p\<in>set ps. \<not> isContextComment U (sql p)
            \<and> (\<exists>t. rewritten_text U log (sql p) = Inr t
                   \<and> ev = Query t (fixArrayBufferValues U (args p)))"
      by blast
    have "wire (snd (catch_up U db (p # ps) c)) = wire c @ (w1 @ w2)"
      using unfold rest(4) w1 by simp
    moreover have "\<forall>ev\<in>set (w1 @ w2). \<exists>p'\<in>set (p # ps). \<not> isContextComment U (sql p')
            \<and> (\<exists>t. rewritten_text U log (sql p') = Inr t
                   \<and> ev = Query t (fixArrayBufferValues U (args p')))"
      using from1 rest(5) by auto
    ultimately show ?thesis
      using unfold rest(1-3) by metis
  qed
qed

text \<open>
  What a call of \<open>performIO\<close> returns or throws, and what it asks of the connection, in
  every session: each way through \<open>compactPerformIOResult\<close>, with the \<open>catch\<close> of
  \<open>performIO\<close> applied to it.
\<close>

lemma replay_exception:
  "fst (catch_up U db ps c) = Inl e \<Longrightarrow> \<not> database_reported e"
proof (induction ps arbitrary: c)
  case Nil
  then show ?case by simp
next
  case (Cons p ps)
  show ?case
  proof (cases "fst (performIO U db p True c)")
    case (Inl e')
    with Cons.prems have "e' = e" by (simp only: catch_up_step sum.case fst_conv sum.inject)
    with Inl show ?thesis
      by (simp add: performIO_eq try_catch_def split: sum.splits if_splits)
  next
    case (Inr r)
    with Cons.prems have "fst (catch_up U db ps (snd (performIO U db p True c))) = Inl e"
      by (simp only: catch_up_step sum.case)
    then show ?thesis by (rule Cons.IH)
  qed
qed

lemma try_catch_replay_exception:
  "fst (catch_up U db ps c) = Inl e \<Longrightarrow> try_catch (Inl e) = Inl e"
  by (simp add: try_catch_def replay_exception)

lemma compact_session:
  assumes "previousQueries c = Some prev" and "rewritten_text U prev (sql q) = Inr t"
  shows "compactPerformIOResult U db q cu c =
     (let queries = (if \<not> cu then prev @ [q] else prev);
          c2 = (logger_debug (logQueries c \<and> \<not> cu)
                  (LogDebug (sql q) (Some (length prev))) c)
                 \<lparr>previousQueries := Some queries\<rparr>
      in if \<not> readyToExecuteTransaction c then
           if isBeginQuery U (sql q) \<and> length queries = 1
             then (Inr (EMPTY_RESULT U), c2)
           else if isCommitQuery U (sql q) \<and> truthy (previous_context_comment U prev)
                   \<and> length queries = 4
             then (Inr (EMPTY_RESULT U), c2)
           else if (length queries = 2 \<and> \<not> isContextComment U (sql q))
                   \<or> (length queries = 3 \<and> \<not> isWriteQuery U (sql q))
             then (case catch_up U db (butlast queries)
                          (c2\<lparr>readyToExecuteTransaction := True\<rparr>) of
                     (Inl e, c3) \<Rightarrow> (Inl e, c3)
                   | (Inr u, c3) \<Rightarrow> skip_context_or_query U db (sql q) t (args q) c3)
           else skip_context_or_query U db (sql q) t (args q) c2
         else skip_context_or_query U db (sql q) t (args q) c2)"
  by (simp only: compactPerformIOResult.simps [of U db q cu c] Let_def
        logger_debug_fields assms option.case sum.case option.map length_map)

lemma performIO_result:
  "fst (performIO U db q cu c) =
     (case previousQueries c of
        None \<Rightarrow> try_catch (db (wire c) (sql q) (fixArrayBufferValues U (args q)))
      | Some prev \<Rightarrow>
          (case rewritten_text U prev (sql q) of
             Inl e \<Rightarrow> try_catch (Inl e)
           | Inr t \<Rightarrow>
               let queries = (if \<not> cu then prev @ [q] else prev);
                   replay = catch_up U db (butlast queries)
                              ((logger_debug (logQueries c \<and> \<not> cu)
                                  (LogDebug (sql q) (Some (length prev))) c)
                                 \<lparr>previousQueries := Some queries,
                                  readyToExecuteTransaction := True\<rparr>)
               in if \<not> readyToExecuteTransaction c then
                    if isBeginQuery U (sql q) \<and> length queries = 1
                      then Inr (ok (EMPTY_RESULT U))
                    else if isCommitQuery U (sql q) \<and> truthy (previous_context_comment U prev)
                            \<and> length queries = 4
                      then Inr (ok (EMPTY_RESULT U))
                    else if (length queries = 2 \<and> \<not> isContextComment U (sql q))
                            \<or> (length queries = 3 \<and> \<not> isWriteQuery U (sql q))
                      then (case fst replay of
                              Inl e \<Rightarrow> Inl e
                            | Inr u \<Rightarrow>
                                if isContextComment U (sql q) then Inr (ok (EMPTY_RESULT U))
                                else try_catch (db (wire (snd replay)) t
                                                  (fixArrayBufferValues U (args q))))
                    else if isContextComment U (sql q) then Inr (ok (EMPTY_RESULT U))
                    else try_catch (db (wire c) t (fixArrayBufferValues U (args q)))
                  else if isContextComment U (sql q) then Inr (ok (EMPTY_RESULT U))
                  else try_catch (db (wire c) t (fixArrayBufferValues U (args q)))))"
proof (cases "previousQueries c")
  case None
  then show ?thesis
    by (simp add: performIO_eq compact_pool)
next
  case (Some prev)
  show ?thesis
  proof (cases "rewritten_text U prev (sql q)")
    case (Inl e)
    with Some show ?thesis
      by (simp add: performIO_eq compactPerformIOResult.simps Let_def)
  next
    case (Inr t)
    define queries where "queries = (if \<not> cu then prev @ [q] else prev)"
    define c2 where "c2 = (logger_debug (logQueries c \<and> \<not> cu)
                             (LogDebug (sql q) (Some (length prev))) c)
                            \<lparr>previousQueries := Some queries\<rparr>"
    define replay where
      "replay = catch_up U db (butlast queries) (c2\<lparr>readyToExecuteTransaction := True\<rparr>)"
    have thrown: "try_catch (Inl e) = Inl e" if "fst replay = Inl e" for e
      using that unfolding replay_def by (rule try_catch_replay_exception)
    have own: "fst (skip_context_or_query U db (sql q) t (args q) c') =
                 (if isContextComment U (sql q) then Inr (EMPTY_RESULT U)
                  else db (wire c') t (fixArrayBufferValues U (args q)))" for c'
      by (simp add: skip_context_or_query_result)
    have w2: "wire c2 = wire c"
      by (simp add: c2_def)
    have after: "fst (case replay of
                        (Inl e, c3) \<Rightarrow> (Inl e, c3)
                      | (Inr u, c3) \<Rightarrow> skip_context_or_query U db (sql q) t (args q) c3) =
                   (case fst replay of
                      Inl e \<Rightarrow> Inl e
                    | Inr u \<Rightarrow>
                        if isContextComment U (sql q) then Inr (EMPTY_RESULT U)
                        else db (wire (snd replay)) t (fixArrayBufferValues U (args q)))"
      by (cases replay) (simp add: own split: sum.splits)
    have "fst (compactPerformIOResult U db q cu c) =
            (if \<not> readyToExecuteTransaction c then
               if isBeginQuery U (sql q) \<and> length queries = 1
                 then Inr (EMPTY_RESULT U)
               else if isCommitQuery U (sql q) \<and> truthy (previous_context_comment U prev)
                       \<and> length queries = 4
                 then Inr (EMPTY_RESULT U)
               else if (length queries = 2 \<and> \<not> isContextComment U (sql q))
                       \<or> (length queries = 3 \<and> \<not> isWriteQuery U (sql q))
                 then (case fst replay of
                         Inl e \<Rightarrow> Inl e
                       | Inr u \<Rightarrow>
                           if isContextComment U (sql q) then Inr (EMPTY_RESULT U)
                           else db (wire (snd replay)) t (fixArrayBufferValues U (args q)))
               else if isContextComment U (sql q) then Inr (EMPTY_RESULT U)
               else db (wire c) t (fixArrayBufferValues U (args q))
             else if isContextComment U (sql q) then Inr (EMPTY_RESULT U)
             else db (wire c) t (fixArrayBufferValues U (args q)))"
      unfolding compact_session [OF Some Inr] Let_def queries_def [symmetric]
        c2_def [symmetric] replay_def [symmetric]
      by (simp only: if_distrib [of fst] fst_conv after own w2 cong: if_cong)
    then have "fst (performIO U db q cu c) =
            (if \<not> readyToExecuteTransaction c then
               if isBeginQuery U (sql q) \<and> length queries = 1
                 then Inr (ok (EMPTY_RESULT U))
               else if isCommitQuery U (sql q) \<and> truthy (previous_context_comment U prev)
                       \<and> length queries = 4
                 then Inr (ok (EMPTY_RESULT U))
               else if (length queries = 2 \<and> \<not> isContextComment U (sql q))
                       \<or> (length queries = 3 \<and> \<not> isWriteQuery U (sql q))
                 then (case fst replay of
                         Inl e \<Rightarrow> Inl e
                       | Inr u \<Rightarrow>
                           if isContextComment U (sql q) then Inr (ok (EMPTY_RESULT U))
                           else try_catch (db (wire (snd replay)) t
                                             (fixArrayBufferValues U (args q))))
               else if isContextComment U (sql q) then Inr (ok (EMPTY_RESULT U))
               else try_catch (db (wire c) t (fixArrayBufferValues U (args q)))
             else if isContextComment U (sql q) then Inr (ok (EMPTY_RESULT U))
             else try_catch (db (wire c) t (fixArrayBufferValues U (args q))))"
      by (cases "fst replay") (simp_all add: performIO_eq thrown)
    then show ?thesis
      unfolding Some Inr option.case sum.case Let_def queries_def c2_def replay_def
      by simp
  qed
qed

lemma performIO_wire:
  "wire (snd (performIO U db q cu c)) =
     (case previousQueries c of
        None \<Rightarrow> wire c @ [Query (sql q) (fixArrayBufferValues U (args q))]
      | Some prev \<Rightarrow>
          (case rewritten_text U prev (sql q) of
             Inl e \<Rightarrow> wire c
           | Inr t \<Rightarrow>
               let queries = (if \<not> cu then prev @ [q] else prev);
                   replay = catch_up U db (butlast queries)
                              ((logger_debug (logQueries c \<and> \<not> cu)
                                  (LogDebug (sql q) (Some (length prev))) c)
                                 \<lparr>previousQueries := Some queries,
                                  readyToExecuteTransaction := True\<rparr>)
               in if \<not> readyToExecuteTransaction c then
                    if isBeginQuery U (sql q) \<and> length queries = 1
                      then wire c
                    else if isCommitQuery U (sql q) \<and> truthy (previous_context_comment U prev)
                            \<and> length queries = 4
                      then wire c
                    else if (length queries = 2 \<and> \<not> isContextComment U (sql q))
                            \<or> (length queries = 3 \<and> \<not> isWriteQuery U (sql q))
                      then (case fst replay of
                              Inl e \<Rightarrow> wire (snd replay)
                            | Inr u \<Rightarrow>
                                if isContextComment U (sql q) then wire (snd replay)
                                else wire (snd replay) @
                                     [Query t (fixArrayBufferValues U (args q))])
                    else if isContextComment U (sql q) then wire c
                    else wire c @ [Query t (fixArrayBufferValues U (args q))]
                  else if isContextComment U (sql q) then wire c
                  else wire c @ [Query t (fixArrayBufferValues U (args q))]))"
proof (cases "previousQueries c")
  case None
  then show ?thesis
    by (simp add: performIO_eq compact_pool)
next
  case (Some prev)
  show ?thesis
  proof (cases "rewritten_text U prev (sql q)")
    case (Inl e)
    with Some show ?thesis
      by (simp add: performIO_eq compactPerformIOResult.simps Let_def)
  next
    case (Inr t)
    define queries where "queries = (if \<not> cu then prev @ [q] else prev)"
    define c2 where "c2 = (logger_debug (logQueries c \<and> \<not> cu)
                             (LogDebug (sql q) (Some (length prev))) c)
                            \<lparr>previousQueries := Some queries\<rparr>"
    define replay where
      "replay = catch_up U db (butlast queries) (c2\<lparr>readyToExecuteTransaction := True\<rparr>)"
    have own: "wire (snd (skip_context_or_query U db (sql q) t (args q) c')) =
                 (if isContextComment U (sql q) then wire c'
                  else wire c' @ [Query t (fixArrayBufferValues U (args q))])" for c'
      by (simp add: skip_context_or_query_result)
    have w2: "wire c2 = wire c"
      by (simp add: c2_def)
    have after: "wire (snd (case replay of
                        (Inl e, c3) \<Rightarrow> (Inl e, c3)
                      | (Inr u, c3) \<Rightarrow> skip_context_or_query U db (sql q) t (args q) c3)) =
                   (case fst replay of
                      Inl e \<Rightarrow> wire (snd replay)
                    | Inr u \<Rightarrow>
                        if isContextComment U (sql q) then wire (snd replay)
                        else wire (snd replay) @ [Query t (fixArrayBufferValues U (args q))])"
      by (cases replay) (simp add: own split: sum.splits)
    have "wire (snd (compactPerformIOResult U db q cu c)) =
            (if \<not> readyToExecuteTransaction c then
               if isBeginQuery U (sql q) \<and> length queries = 1
                 then wire c
               else if isCommitQuery U (sql q) \<and> truthy (previous_context_comment U prev)
                       \<and> length queries = 4
                 then wire c
               else if (length queries = 2 \<and> \<not> isContextComment U (sql q))
                       \<or> (length queries = 3 \<and> \<not> isWriteQuery U (sql q))
                 then (case fst replay of
                         Inl e \<Rightarrow> wire (snd replay)
                       | Inr u \<Rightarrow>
                           if isContextComment U (sql q) then wire (snd replay)
                           else wire (snd replay) @ [Query t (fixArrayBufferValues U (args q))])
               else if isContextComment U (sql q) then wire c
               else wire c @ [Query t (fixArrayBufferValues U (args q))]
             else if isContextComment U (sql q) then wire c
             else wire c @ [Query t (fixArrayBufferValues U (args q))])"
      unfolding compact_session [OF Some Inr] Let_def queries_def [symmetric]
        c2_def [symmetric] replay_def [symmetric]
      by (simp only: if_distrib [of snd] if_distrib [of wire] snd_conv after own w2
            cong: if_cong)
    then show ?thesis
      unfolding Some Inr option.case sum.case Let_def queries_def c2_def replay_def
      by (simp add: performIO_eq)
  qed
qed

text \<open>
  A release recorded on the connection changes nothing in how \<open>performIO\<close> treats a
  statement: the client with the release answers as the client without it does on a
  connection that answers as if it had seen the release.
\<close>

lemma released_at_append:
  "n \<le> length h \<Longrightarrow> released_at n (h @ xs) = released_at n h @ xs"
  by (simp add: released_at_def)

lemma rewire_fields [simp]:
  "previousQueries (rewire n c) = previousQueries c"
  "readyToExecuteTransaction (rewire n c) = readyToExecuteTransaction c"
  "logQueries (rewire n c) = logQueries c"
  "wire (rewire n c) = released_at n (wire c)"
  by (simp_all add: rewire_def)

lemma rewire_updates:
  "logger_debug b l (rewire n c) = rewire n (logger_debug b l c)"
  "(rewire n c)\<lparr>previousQueries := p\<rparr> = rewire n (c\<lparr>previousQueries := p\<rparr>)"
  "(rewire n c)\<lparr>readyToExecuteTransaction := r\<rparr> = rewire n (c\<lparr>readyToExecuteTransaction := r\<rparr>)"
  by (simp_all add: rewire_def logger_debug_def)

lemma client_query_rewire:
  assumes "\<forall>h t vs. n \<le> length h \<longrightarrow> db' h t vs = db (released_at n h) t vs"
    and "n \<le> length (wire c)"
  shows "client_query U db t vs (rewire n c) =
           (fst (client_query U db' t vs c), rewire n (snd (client_query U db' t vs c)))"
  using assms
  by (simp add: client_query_def Let_def rewire_def released_at_append logger_debug_def)

lemma skip_rewire:
  assumes "\<forall>h t vs. n \<le> length h \<longrightarrow> db' h t vs = db (released_at n h) t vs"
    and "n \<le> length (wire c)"
  shows "skip_context_or_query U db s t vs (rewire n c) =
           (fst (skip_context_or_query U db' s t vs c),
            rewire n (snd (skip_context_or_query U db' s t vs c)))"
  using client_query_rewire [OF assms]
  by (simp add: skip_context_or_query_def)

lemma skip_grows:
  "length (wire c) \<le> length (wire (snd (skip_context_or_query U db s t vs c)))"
  by (simp add: skip_context_or_query_result)

lemma ready_rewire:
  assumes rel: "\<forall>h t vs. n \<le> length h \<longrightarrow> db' h t vs = db (released_at n h) t vs"
    and n: "n \<le> length (wire c)"
    and ready: "readyToExecuteTransaction c" and log: "previousQueries c = Some prev"
  shows "performIO U db q cu (rewire n c) =
           (fst (performIO U db' q cu c), rewire n (snd (performIO U db' q cu c)))
         \<and> n \<le> length (wire (snd (performIO U db' q cu c)))"
proof (cases "rewritten_text U prev (sql q)")
  case (Inl e)
  with ready log show ?thesis
    using n by (simp add: performIO_eq compact_ready rewire_updates)
next
  case (Inr t)
  let ?c2 = "(logger_debug (logQueries c \<and> \<not> cu) (LogDebug (sql q) (Some (length prev))) c)
               \<lparr>previousQueries := Some (if \<not> cu then prev @ [q] else prev)\<rparr>"
  have n2: "n \<le> length (wire ?c2)" using n by simp
  have "compactPerformIOResult U db q cu (rewire n c) =
          skip_context_or_query U db (sql q) t (args q) (rewire n ?c2)"
    using ready log Inr by (simp add: compact_ready rewire_updates)
  moreover have "compactPerformIOResult U db' q cu c =
          skip_context_or_query U db' (sql q) t (args q) ?c2"
    using ready log Inr by (simp add: compact_ready)
  moreover note skip_rewire [OF rel n2, of U "sql q" t "args q"]
    and skip_grows [of ?c2 U db' "sql q" t "args q"]
  ultimately show ?thesis
    using n2 by (simp add: performIO_eq)
qed


lemma replay_rewire:
  assumes rel: "\<forall>h t vs. n \<le> length h \<longrightarrow> db' h t vs = db (released_at n h) t vs"
    and n: "n \<le> length (wire c)"
    and ready: "readyToExecuteTransaction c" and log: "previousQueries c = Some prev"
  shows "catch_up U db ps (rewire n c) =
           (fst (catch_up U db' ps c), rewire n (snd (catch_up U db' ps c)))
         \<and> n \<le> length (wire (snd (catch_up U db' ps c)))"
  using n ready log
proof (induction ps arbitrary: c)
  case Nil
  then show ?case by simp
next
  case (Cons p ps)
  let ?r = "performIO U db' p True c"
  note step = ready_rewire [OF rel Cons.prems, of U p True]
  note after = replay_step [OF Cons.prems(2,3), of U db' p]
  from step have n': "n \<le> length (wire (snd ?r))" by blast
  from after have ready': "readyToExecuteTransaction (snd ?r)"
    and log': "previousQueries (snd ?r) = Some prev"
    by blast+
  from step have sim: "performIO U db p True (rewire n c) = (fst ?r, rewire n (snd ?r))"
    by blast
  show ?case
  proof (cases "fst ?r")
    case (Inl e)
    then show ?thesis
      using sim n' by (simp add: catch_up_step del: catch_up.simps)
  next
    case (Inr x)
    then show ?thesis
      using sim Cons.IH [OF n' ready' log']
      by (simp add: catch_up_step del: catch_up.simps)
  qed
qed

lemma performIO_rewire:
  assumes rel: "\<forall>h t vs. n \<le> length h \<longrightarrow> db' h t vs = db (released_at n h) t vs"
    and n: "n \<le> length (wire c)"
  shows "performIO U db q cu (rewire n c) =
           (fst (performIO U db' q cu c), rewire n (snd (performIO U db' q cu c)))"
proof (cases "previousQueries c")
  case None
  let ?c1 = "logger_debug (logQueries c \<and> \<not> cu) (LogDebug (sql q) None) c"
  have "n \<le> length (wire ?c1)" using n by simp
  from client_query_rewire [OF rel this, of U "sql q" "args q"] None show ?thesis
    by (simp add: performIO_eq compact_pool rewire_updates)
next
  case (Some prev)
  show ?thesis
  proof (cases "readyToExecuteTransaction c")
    case True
    from ready_rewire [OF rel n True Some] show ?thesis by blast
  next
    case False
    show ?thesis
    proof (cases "rewritten_text U prev (sql q)")
      case (Inl e)
      with Some show ?thesis
        by (simp add: performIO_eq compactPerformIOResult.simps Let_def rewire_updates)
    next
      case (Inr t)
      define queries where "queries = (if \<not> cu then prev @ [q] else prev)"
      define c2 where "c2 = (logger_debug (logQueries c \<and> \<not> cu)
                               (LogDebug (sql q) (Some (length prev))) c)
                              \<lparr>previousQueries := Some queries\<rparr>"
      define c2r where "c2r = c2\<lparr>readyToExecuteTransaction := True\<rparr>"
      have n2: "n \<le> length (wire c2)" using n by (simp add: c2_def)
      have c2': "(logger_debug (logQueries c \<and> \<not> cu)
                    (LogDebug (sql q) (Some (length prev))) (rewire n c))
                   \<lparr>previousQueries := Some queries\<rparr> = rewire n c2"
        by (simp add: c2_def rewire_updates)
      have log_r: "previousQueries (rewire n c) = Some prev"
        using Some by simp
      have c2r': "(rewire n c2)\<lparr>readyToExecuteTransaction := True\<rparr> = rewire n c2r"
        by (simp add: c2r_def rewire_updates)
      have replay: "catch_up U db ps (rewire n c2r) =
                      (fst (catch_up U db' ps c2r), rewire n (snd (catch_up U db' ps c2r)))
                    \<and> n \<le> length (wire (snd (catch_up U db' ps c2r)))" for ps
        by (rule replay_rewire [OF rel, of c2r "queries"]) (use n in \<open>simp_all add: c2r_def c2_def\<close>)
      have own: "skip_context_or_query U db (sql q) t (args q) (rewire n c') =
                   (fst (skip_context_or_query U db' (sql q) t (args q) c'),
                    rewire n (snd (skip_context_or_query U db' (sql q) t (args q) c')))"
        if "n \<le> length (wire c')" for c'
        using rel that by (rule skip_rewire)
      have closed: "compactPerformIOResult U db q cu (rewire n c) =
         (if \<not> readyToExecuteTransaction c then
           if isBeginQuery U (sql q) \<and> length queries = 1
             then (Inr (EMPTY_RESULT U), rewire n c2)
           else if isCommitQuery U (sql q) \<and> truthy (previous_context_comment U prev)
                   \<and> length queries = 4
             then (Inr (EMPTY_RESULT U), rewire n c2)
           else if (length queries = 2 \<and> \<not> isContextComment U (sql q))
                   \<or> (length queries = 3 \<and> \<not> isWriteQuery U (sql q))
             then (case catch_up U db (butlast queries) (rewire n c2r) of
                     (Inl e, c3) \<Rightarrow> (Inl e, c3)
                   | (Inr u, c3) \<Rightarrow> skip_context_or_query U db (sql q) t (args q) c3)
           else skip_context_or_query U db (sql q) t (args q) (rewire n c2)
         else skip_context_or_query U db (sql q) t (args q) (rewire n c2))"
        using compact_session [OF log_r Inr, of db cu, unfolded Let_def, folded queries_def]
        by (simp only: rewire_fields c2' c2r')
      have opened: "compactPerformIOResult U db' q cu c =
         (if \<not> readyToExecuteTransaction c then
           if isBeginQuery U (sql q) \<and> length queries = 1
             then (Inr (EMPTY_RESULT U), c2)
           else if isCommitQuery U (sql q) \<and> truthy (previous_context_comment U prev)
                   \<and> length queries = 4
             then (Inr (EMPTY_RESULT U), c2)
           else if (length queries = 2 \<and> \<not> isContextComment U (sql q))
                   \<or> (length queries = 3 \<and> \<not> isWriteQuery U (sql q))
             then (case catch_up U db' (butlast queries) c2r of
                     (Inl e, c3) \<Rightarrow> (Inl e, c3)
                   | (Inr u, c3) \<Rightarrow> skip_context_or_query U db' (sql q) t (args q) c3)
           else skip_context_or_query U db' (sql q) t (args q) c2
         else skip_context_or_query U db' (sql q) t (args q) c2)"
        using compact_session [OF Some Inr, of db' cu, unfolded Let_def, folded queries_def,
                               folded c2_def, folded c2r_def]
        by (simp only:)
      have "compactPerformIOResult U db q cu (rewire n c) =
              (fst (compactPerformIOResult U db' q cu c),
               rewire n (snd (compactPerformIOResult U db' q cu c)))"
      proof (cases "catch_up U db' (butlast queries) c2r")
        case (Pair x c3)
        with replay [of "butlast queries"]
        have r: "catch_up U db (butlast queries) (rewire n c2r) = (x, rewire n c3)"
          and n3: "n \<le> length (wire c3)"
          by simp_all
        show ?thesis
          unfolding closed opened r Pair
          by (cases x) (simp_all add: own [OF n2] own [OF n3])
      qed
      then show ?thesis
        by (simp add: performIO_eq)
    qed
  qed
qed

subsection \<open>Context propagation\<close>

text \<open>
  C1, as the code has it. \<open>previousQueries.find\<close> returns the first context comment of
  the array, whatever follows it. A write submitted in a session whose array holds a
  context comment (non-empty and decodable) is sent with the context decoded from that
  first comment, not from a later one.
\<close>

theorem context_from_first_marker:
  assumes "previousQueries c = Some (xs @ m # ys)"
    and "\<forall>p\<in>set xs. \<not> isContextComment U (sql p)"
    and "isContextComment U (sql m)" and "sql m \<noteq> []"
    and "sqlCommentToContext U (sql m) = Inr context"
    and "isWriteQuery U (sql s)" and "\<not> isContextComment U (sql s)"
    and "\<not> isCommitQuery U (sql s)"
  shows "previous_context_comment U (xs @ m # ys) = Some (sql m)
         \<and> wire (snd (performIO U db s False c)) =
             wire c @
             [Query (sql s @ '' '' @ contextToSqlComment U (spread [(''SQL'', sql s)] context))
                (fixArrayBufferValues U (args s))]"
proof
  from assms(2,3) show "previous_context_comment U (xs @ m # ys) = Some (sql m)"
    by (rule previous_context_comment_first)
next
  from assms show "wire (snd (performIO U db s False c)) =
             wire c @
             [Query (sql s @ '' '' @ contextToSqlComment U (spread [(''SQL'', sql s)] context))
                (fixArrayBufferValues U (args s))]"
    by (rule write_after_context_sent)
qed

text \<open>
  After \<open>BEGIN\<close>, a comment with user 1, a write and a comment with user 2, the next
  write carries user 1.
\<close>

theorem context_from_first_marker_witness:
  "previousQueries two_markers =
     Some ([statement ''BEGIN''] @ statement (encode [(''user'', ''1'')]) #
           [statement ''UPDATE t SET x=1'', statement (encode [(''user'', ''2'')])])
   \<and> \<not> isContextComment utils (sql (statement ''BEGIN''))
   \<and> isContextComment utils (sql (statement (encode [(''user'', ''1'')])))
   \<and> sqlCommentToContext utils (sql (statement (encode [(''user'', ''1'')])))
       = Inr [(''user'', ''1'')]
   \<and> isWriteQuery utils (sql (statement ''UPDATE t SET x=2''))
   \<and> wire (snd (performIO utils healthy (statement ''UPDATE t SET x=2'') False two_markers)) =
       wire two_markers @
       [Query (''UPDATE t SET x=2 '' @ encode [(''SQL'', ''UPDATE t SET x=2''), (''user'', ''1'')])
          []]"
proof -
  have log: "previousQueries two_markers =
     Some ([statement ''BEGIN''] @ statement (encode [(''user'', ''1'')]) #
           [statement ''UPDATE t SET x=1'', statement (encode [(''user'', ''2'')])])"
    by code_simp
  have b: "\<not> isContextComment utils (sql (statement ''BEGIN''))"
    by code_simp
  then have before: "\<forall>p\<in>set [statement ''BEGIN'']. \<not> isContextComment utils (sql p)"
    by simp
  have m: "isContextComment utils (sql (statement (encode [(''user'', ''1'')])))"
    "sql (statement (encode [(''user'', ''1'')])) \<noteq> []"
    "sqlCommentToContext utils (sql (statement (encode [(''user'', ''1'')])))
       = Inr [(''user'', ''1'')]"
    by code_simp+
  have s: "isWriteQuery utils (sql (statement ''UPDATE t SET x=2''))"
    "\<not> isContextComment utils (sql (statement ''UPDATE t SET x=2''))"
    "\<not> isCommitQuery utils (sql (statement ''UPDATE t SET x=2''))"
    by code_simp+
  have call: "Query (sql (statement ''UPDATE t SET x=2'') @ '' '' @
                contextToSqlComment utils
                  (spread [(''SQL'', sql (statement ''UPDATE t SET x=2''))] [(''user'', ''1'')]))
               (fixArrayBufferValues utils (args (statement ''UPDATE t SET x=2'')))
             = Query (''UPDATE t SET x=2 '' @
                      encode [(''SQL'', ''UPDATE t SET x=2''), (''user'', ''1'')]) []"
    by code_simp
  have "wire (snd (performIO utils healthy (statement ''UPDATE t SET x=2'') False two_markers)) =
          wire two_markers @
          [Query (sql (statement ''UPDATE t SET x=2'') @ '' '' @
                contextToSqlComment utils
                  (spread [(''SQL'', sql (statement ''UPDATE t SET x=2''))] [(''user'', ''1'')]))
               (fixArrayBufferValues utils (args (statement ''UPDATE t SET x=2'')))]"
    by (rule conjunct2 [OF context_from_first_marker [OF log before m s]])
  then have "wire (snd (performIO utils healthy (statement ''UPDATE t SET x=2'') False
                          two_markers)) =
       wire two_markers @
       [Query (''UPDATE t SET x=2 '' @ encode [(''SQL'', ''UPDATE t SET x=2''), (''user'', ''1'')])
          []]"
    by (simp only: call)
  with log b m s show ?thesis
    by blast
qed

text \<open>
  C1, as stated, fails: in that session the most recent context comment is the one with
  user 2, and the write is not sent with it.
\<close>

theorem context_from_latest_marker_counterexample:
  "previousQueries two_markers =
     Some [statement ''BEGIN'', statement (encode [(''user'', ''1'')]),
           statement ''UPDATE t SET x=1'', statement (encode [(''user'', ''2'')])]
   \<and> sqlCommentToContext utils (encode [(''user'', ''2'')]) = Inr [(''user'', ''2'')]
   \<and> wire (snd (performIO utils healthy (statement ''UPDATE t SET x=2'') False two_markers)) =
       wire two_markers @
       [Query (''UPDATE t SET x=2 '' @
               contextToSqlComment utils
                 (spread [(''SQL'', ''UPDATE t SET x=2'')] [(''user'', ''1'')])) []]
   \<and> wire (snd (performIO utils healthy (statement ''UPDATE t SET x=2'') False two_markers)) \<noteq>
       wire two_markers @
       [Query (''UPDATE t SET x=2 '' @
               contextToSqlComment utils
                 (spread [(''SQL'', ''UPDATE t SET x=2'')] [(''user'', ''2'')])) []]"
  by code_simp

text \<open>
  C2, as the code has it. The comment appended to a write encodes
  \<open>{ SQL: sql, ...context }\<close>: the keys of the decoded context with their values, and
  under \<open>SQL\<close> the text of the write unless the context has that key itself, whose value
  then stays. Decoding the comment (where decoding inverts encoding) gives that object.
\<close>

theorem appended_comment_merges_context:
  assumes "previousQueries c = Some (xs @ m # ys)"
    and "\<forall>p\<in>set xs. \<not> isContextComment U (sql p)"
    and "isContextComment U (sql m)" and "sql m \<noteq> []"
    and "sqlCommentToContext U (sql m) = Inr context"
    and "distinct (map fst context)"
    and "isWriteQuery U (sql s)" and "\<not> isContextComment U (sql s)"
    and "\<not> isCommitQuery U (sql s)"
    and "sqlCommentToContext U (contextToSqlComment U (spread [(''SQL'', sql s)] context))
         = Inr (spread [(''SQL'', sql s)] context)"
  shows "wire (snd (performIO U db s False c)) =
           wire c @
           [Query (sql s @ '' '' @ contextToSqlComment U (spread [(''SQL'', sql s)] context))
              (fixArrayBufferValues U (args s))]
         \<and> (case sqlCommentToContext U
                   (contextToSqlComment U (spread [(''SQL'', sql s)] context)) of
               Inl e \<Rightarrow> False
             | Inr payload \<Rightarrow>
                 map_of payload = [''SQL'' \<mapsto> sql s] ++ map_of context
                 \<and> map_of payload ''SQL'' =
                     (case map_of context ''SQL'' of None \<Rightarrow> Some (sql s) | Some v \<Rightarrow> Some v))"
proof
  from assms(1-5,7-9) show "wire (snd (performIO U db s False c)) =
           wire c @
           [Query (sql s @ '' '' @ contextToSqlComment U (spread [(''SQL'', sql s)] context))
              (fixArrayBufferValues U (args s))]"
    by (rule write_after_context_sent)
next
  have "map_of (spread [(''SQL'', sql s)] context) = [''SQL'' \<mapsto> sql s] ++ map_of context"
    using assms(6) by (simp add: map_of_spread)
  then show "case sqlCommentToContext U
                   (contextToSqlComment U (spread [(''SQL'', sql s)] context)) of
               Inl e \<Rightarrow> False
             | Inr payload \<Rightarrow>
                 map_of payload = [''SQL'' \<mapsto> sql s] ++ map_of context
                 \<and> map_of payload ''SQL'' =
                     (case map_of context ''SQL'' of None \<Rightarrow> Some (sql s) | Some v \<Rightarrow> Some v)"
    by (simp add: assms(10) map_add_def split: option.splits)
qed

text \<open>
  After \<open>BEGIN\<close> and a comment with user 1, the write is sent with a comment that
  decodes to its own text under \<open>SQL\<close> and user 1.
\<close>

theorem appended_comment_merges_context_witness:
  "previousQueries context_given =
     Some ([statement ''BEGIN''] @ statement (encode [(''user'', ''1'')]) # [])
   \<and> \<not> isContextComment utils (sql (statement ''BEGIN''))
   \<and> isContextComment utils (sql (statement (encode [(''user'', ''1'')])))
   \<and> sqlCommentToContext utils (sql (statement (encode [(''user'', ''1'')])))
       = Inr [(''user'', ''1'')]
   \<and> distinct (map fst [(''user'', ''1'')])
   \<and> isWriteQuery utils (sql (statement ''UPDATE t SET x=1''))
   \<and> wire (snd (performIO utils healthy (statement ''UPDATE t SET x=1'') False context_given)) =
       wire context_given @
       [Query (''UPDATE t SET x=1 '' @ encode [(''SQL'', ''UPDATE t SET x=1''), (''user'', ''1'')])
          []]
   \<and> sqlCommentToContext utils (encode [(''SQL'', ''UPDATE t SET x=1''), (''user'', ''1'')])
       = Inr [(''SQL'', ''UPDATE t SET x=1''), (''user'', ''1'')]
   \<and> map_of [(''SQL'', ''UPDATE t SET x=1''), (''user'', ''1'')] ''SQL''
       = Some ''UPDATE t SET x=1''"
proof -
  let ?s = "statement ''UPDATE t SET x=1''"
  have log: "previousQueries context_given =
     Some ([statement ''BEGIN''] @ statement (encode [(''user'', ''1'')]) # [])"
    by code_simp
  have b: "\<not> isContextComment utils (sql (statement ''BEGIN''))"
    by code_simp
  then have before: "\<forall>p\<in>set [statement ''BEGIN'']. \<not> isContextComment utils (sql p)"
    by simp
  have m: "isContextComment utils (sql (statement (encode [(''user'', ''1'')])))"
    "sql (statement (encode [(''user'', ''1'')])) \<noteq> []"
    "sqlCommentToContext utils (sql (statement (encode [(''user'', ''1'')])))
       = Inr [(''user'', ''1'')]"
    by code_simp+
  have keys: "distinct (map fst [(''user'', ''1'')])"
    by code_simp
  have s: "isWriteQuery utils (sql ?s)" "\<not> isContextComment utils (sql ?s)"
    "\<not> isCommitQuery utils (sql ?s)"
    by code_simp+
  have merged: "spread [(''SQL'', sql ?s)] [(''user'', ''1'')]
                  = [(''SQL'', ''UPDATE t SET x=1''), (''user'', ''1'')]"
    by code_simp
  have round_trip:
    "sqlCommentToContext utils
       (contextToSqlComment utils [(''SQL'', ''UPDATE t SET x=1''), (''user'', ''1'')])
     = Inr [(''SQL'', ''UPDATE t SET x=1''), (''user'', ''1'')]"
    by code_simp
  have call: "Query (sql ?s @ '' '' @
                contextToSqlComment utils [(''SQL'', ''UPDATE t SET x=1''), (''user'', ''1'')])
               (fixArrayBufferValues utils (args ?s))
             = Query (''UPDATE t SET x=1 '' @
                      encode [(''SQL'', ''UPDATE t SET x=1''), (''user'', ''1'')]) []"
    by code_simp
  have absent: "(case map_of [(''user'', ''1'')] ''SQL'' of
                   None \<Rightarrow> Some (sql ?s) | Some v \<Rightarrow> Some v) = Some ''UPDATE t SET x=1''"
    by code_simp
  have decoded: "sqlCommentToContext utils (encode [(''SQL'', ''UPDATE t SET x=1''), (''user'', ''1'')])
       = Inr [(''SQL'', ''UPDATE t SET x=1''), (''user'', ''1'')]"
    by code_simp
  note t = appended_comment_merges_context
             [OF log before m keys s, unfolded merged, OF round_trip, of healthy,
              unfolded round_trip sum.case absent call]
  from t have "wire (snd (performIO utils healthy ?s False context_given)) =
       wire context_given @
       [Query (''UPDATE t SET x=1 '' @ encode [(''SQL'', ''UPDATE t SET x=1''), (''user'', ''1'')])
          []]"
    by (rule conjunct1)
  moreover from t
  have "map_of [(''SQL'', ''UPDATE t SET x=1''), (''user'', ''1'')] ''SQL''
          = Some ''UPDATE t SET x=1''"
    by (rule conjunct2 [OF conjunct2])
  ultimately show ?thesis
    using log b m keys s decoded by blast
qed

text \<open>
  C2, as stated, fails: when the context comment itself carries the key \<open>SQL\<close>, the
  comment appended to the write decodes to the value of the context, not to the text of
  the write.
\<close>

theorem reserved_key_is_own_text_counterexample:
  "sqlCommentToContext utils (encode [(''SQL'', ''SELECT 1''), (''user'', ''7'')])
     = Inr [(''SQL'', ''SELECT 1''), (''user'', ''7'')]
   \<and> wire (snd (submit utils healthy
                   [statement ''BEGIN'',
                    statement (encode [(''SQL'', ''SELECT 1''), (''user'', ''7'')]),
                    statement ''UPDATE t SET x=1'']
                   (transactionContext False pooled)))
       = [Query (''UPDATE t SET x=1 '' @ encode [(''SQL'', ''SELECT 1''), (''user'', ''7'')]) []]
   \<and> map_of [(''SQL'', ''SELECT 1''), (''user'', ''7'')] ''SQL'' \<noteq> Some ''UPDATE t SET x=1''"
  by code_simp

subsection \<open>Failures during the replay\<close>

text \<open>
  C3 does not hold of the code. The loop of lines 170 to 172 drops what \<open>performIO\<close>
  returns, and \<open>performIO\<close> turns a database error into a returned \<open>err\<close>: when the
  database rejects the replayed \<open>BEGIN\<close>, the replay goes on, \<open>SELECT 1\<close> is sent, and
  the submission that started the replay returns the success of \<open>SELECT 1\<close>.
\<close>

theorem replay_failure_dropped:
  "rejecting_begin [] ''BEGIN'' [] = Inl too_many_connections
   \<and> database_reported too_many_connections
   \<and> fst (submit utils rejecting_begin [statement ''BEGIN'', statement ''SELECT 1'']
            (transactionContext False pooled))
       = [Inr (ok (EMPTY_RESULT utils)), Inr (ok one_row)]
   \<and> wire (snd (submit utils rejecting_begin [statement ''BEGIN'', statement ''SELECT 1'']
                   (transactionContext False pooled)))
       = [Query ''BEGIN'' [], Query ''SELECT 1'' []]
   \<and> fst (submit utils rejecting_begin
            [statement ''BEGIN'', statement (encode [(''user'', ''1'')]),
             statement ''SELECT 1'']
            (transactionContext False pooled))
       = [Inr (ok (EMPTY_RESULT utils)), Inr (ok (EMPTY_RESULT utils)), Inr (ok one_row)]"
  by code_simp

subsection \<open>The canonical transaction\<close>

text \<open>
  C4, as the code has it. In a new session, for the statements \<open>BEGIN\<close>, context
  comment, one write, \<open>COMMIT\<close>, where the context comment is non-empty and decodes
  (and \<open>BEGIN\<close> and the write are not themselves context comments), the connection is
  called exactly once, with the write statement followed by the encoded context; the
  submissions of \<open>BEGIN\<close>, of the context comment and of \<open>COMMIT\<close> return
  \<open>EMPTY_RESULT\<close>, and that of the write returns what the one call gives.
\<close>

theorem canonical_transaction_one_call:
  assumes "isBeginQuery U (sql b)" and "\<not> isContextComment U (sql b)"
    and "isContextComment U (sql m)" and "sql m \<noteq> []"
    and "sqlCommentToContext U (sql m) = Inr context"
    and "isWriteQuery U (sql w)" and "\<not> isContextComment U (sql w)"
    and "isCommitQuery U (sql k)"
  shows "fst (submit U db [b, m, w, k] (transactionContext lq conn)) =
           [Inr (ok (EMPTY_RESULT U)),
            Inr (ok (EMPTY_RESULT U)),
            try_catch
              (db (wire conn)
                 (sql w @ '' '' @ contextToSqlComment U (spread [(''SQL'', sql w)] context))
                 (fixArrayBufferValues U (args w))),
            Inr (ok (EMPTY_RESULT U))]
         \<and> wire (snd (submit U db [b, m, w, k] (transactionContext lq conn))) =
             wire conn @
             [Query (sql w @ '' '' @ contextToSqlComment U (spread [(''SQL'', sql w)] context))
                (fixArrayBufferValues U (args w))]"
proof
  show "fst (submit U db [b, m, w, k] (transactionContext lq conn)) =
           [Inr (ok (EMPTY_RESULT U)),
            Inr (ok (EMPTY_RESULT U)),
            try_catch
              (db (wire conn)
                 (sql w @ '' '' @ contextToSqlComment U (spread [(''SQL'', sql w)] context))
                 (fixArrayBufferValues U (args w))),
            Inr (ok (EMPTY_RESULT U))]"
    using assms
    by (simp add: performIO_eq compactPerformIOResult.simps transactionContext_def Let_def
          rewritten_text_def previous_context_comment_def truthy_def
          skip_context_or_query_def split: prod.splits)
next
  show "wire (snd (submit U db [b, m, w, k] (transactionContext lq conn))) =
             wire conn @
             [Query (sql w @ '' '' @ contextToSqlComment U (spread [(''SQL'', sql w)] context))
                (fixArrayBufferValues U (args w))]"
    using assms
    by (simp add: performIO_eq compactPerformIOResult.simps transactionContext_def Let_def
          rewritten_text_def previous_context_comment_def truthy_def
          skip_context_or_query_def split: prod.splits)
qed

text \<open>
  The scenario of the specification: \<open>BEGIN\<close>, a context comment, \<open>UPDATE t SET x=1\<close>,
  \<open>COMMIT\<close>.
\<close>

theorem canonical_transaction_one_call_witness:
  "isBeginQuery utils (sql (statement ''BEGIN''))
   \<and> \<not> isContextComment utils (sql (statement ''BEGIN''))
   \<and> isContextComment utils (sql (statement (encode [(''user'', ''1'')])))
   \<and> sql (statement (encode [(''user'', ''1'')])) \<noteq> []
   \<and> sqlCommentToContext utils (sql (statement (encode [(''user'', ''1'')])))
       = Inr [(''user'', ''1'')]
   \<and> isWriteQuery utils (sql (statement ''UPDATE t SET x=1''))
   \<and> \<not> isContextComment utils (sql (statement ''UPDATE t SET x=1''))
   \<and> isCommitQuery utils (sql (statement ''COMMIT''))
   \<and> fst (submit utils healthy
             [statement ''BEGIN'', statement (encode [(''user'', ''1'')]),
              statement ''UPDATE t SET x=1'', statement ''COMMIT'']
             (transactionContext False pooled))
       = [Inr (ok (EMPTY_RESULT utils)), Inr (ok (EMPTY_RESULT utils)), Inr (ok one_row),
          Inr (ok (EMPTY_RESULT utils))]
   \<and> wire (snd (submit utils healthy
                   [statement ''BEGIN'', statement (encode [(''user'', ''1'')]),
                    statement ''UPDATE t SET x=1'', statement ''COMMIT'']
                   (transactionContext False pooled)))
       = [Query (''UPDATE t SET x=1 '' @ encode [(''SQL'', ''UPDATE t SET x=1''), (''user'', ''1'')])
            []]"
proof -
  have b: "isBeginQuery utils (sql (statement ''BEGIN''))"
    "\<not> isContextComment utils (sql (statement ''BEGIN''))"
    by code_simp+
  have m: "isContextComment utils (sql (statement (encode [(''user'', ''1'')])))"
    "sql (statement (encode [(''user'', ''1'')])) \<noteq> []"
    "sqlCommentToContext utils (sql (statement (encode [(''user'', ''1'')])))
       = Inr [(''user'', ''1'')]"
    by code_simp+
  have w: "isWriteQuery utils (sql (statement ''UPDATE t SET x=1''))"
    "\<not> isContextComment utils (sql (statement ''UPDATE t SET x=1''))"
    by code_simp+
  have k: "isCommitQuery utils (sql (statement ''COMMIT''))"
    by code_simp
  have answer: "try_catch
              (healthy (wire pooled)
                 (sql (statement ''UPDATE t SET x=1'') @ '' '' @
                  contextToSqlComment utils
                    (spread [(''SQL'', sql (statement ''UPDATE t SET x=1''))] [(''user'', ''1'')]))
                 (fixArrayBufferValues utils (args (statement ''UPDATE t SET x=1''))))
          = Inr (ok one_row)"
    by code_simp
  have call: "wire pooled @
             [Query (sql (statement ''UPDATE t SET x=1'') @ '' '' @
                     contextToSqlComment utils
                       (spread [(''SQL'', sql (statement ''UPDATE t SET x=1''))]
                          [(''user'', ''1'')]))
                (fixArrayBufferValues utils (args (statement ''UPDATE t SET x=1'')))]
          = [Query (''UPDATE t SET x=1 '' @ encode [(''SQL'', ''UPDATE t SET x=1''), (''user'', ''1'')])
               []]"
    by code_simp
  note t = canonical_transaction_one_call [OF b m w k, of healthy False pooled]
  from t have "fst (submit utils healthy
             [statement ''BEGIN'', statement (encode [(''user'', ''1'')]),
              statement ''UPDATE t SET x=1'', statement ''COMMIT'']
             (transactionContext False pooled))
       = [Inr (ok (EMPTY_RESULT utils)), Inr (ok (EMPTY_RESULT utils)), Inr (ok one_row),
          Inr (ok (EMPTY_RESULT utils))]"
    by (simp only: answer)
  moreover from t have "wire (snd (submit utils healthy
                   [statement ''BEGIN'', statement (encode [(''user'', ''1'')]),
                    statement ''UPDATE t SET x=1'', statement ''COMMIT'']
                   (transactionContext False pooled)))
       = [Query (''UPDATE t SET x=1 '' @ encode [(''SQL'', ''UPDATE t SET x=1''), (''user'', ''1'')])
            []]"
    by (simp only: call)
  ultimately show ?thesis
    using b m w k by blast
qed

text \<open>
  C4, as stated, fails for a context comment that does not decode: the write throws the
  decoder's exception before it is recorded, so \<open>COMMIT\<close> is the third statement; it
  starts the replay, and the connection receives \<open>BEGIN\<close> and \<open>COMMIT\<close> and never
  the write.
\<close>

theorem canonical_transaction_malformed_counterexample:
  "isBeginQuery utils (sql (statement ''BEGIN''))
   \<and> isContextComment utils (sql (statement ''-- ctx:oops''))
   \<and> sqlCommentToContext utils (sql (statement ''-- ctx:oops'')) = Inl syntax_error
   \<and> isWriteQuery utils (sql (statement ''UPDATE t SET x=1''))
   \<and> isCommitQuery utils (sql (statement ''COMMIT''))
   \<and> fst (submit utils healthy
             [statement ''BEGIN'', statement ''-- ctx:oops'',
              statement ''UPDATE t SET x=1'', statement ''COMMIT'']
             (transactionContext False pooled))
       = [Inr (ok (EMPTY_RESULT utils)), Inr (ok (EMPTY_RESULT utils)), Inl syntax_error,
          Inr (ok one_row)]
   \<and> wire (snd (submit utils healthy
                   [statement ''BEGIN'', statement ''-- ctx:oops'',
                    statement ''UPDATE t SET x=1'', statement ''COMMIT'']
                   (transactionContext False pooled)))
       = [Query ''BEGIN'' [], Query ''COMMIT'' []]"
  by code_simp

text \<open>
  C5. In a new session whose first statement is a \<open>BEGIN\<close> (answered with
  \<open>EMPTY_RESULT\<close>, nothing sent, the flag still false) and whose second statement is not
  a context comment, the processing of the second statement sets the flag and calls the
  connection first with the \<open>BEGIN\<close>, then with the second statement; the second call
  is missing only when the first threw an exception that is not a database error, which
  is then thrown to the caller.
\<close>

theorem second_statement_materializes:
  assumes "isBeginQuery U (sql b)" and "\<not> isContextComment U (sql b)"
    and "\<not> isContextComment U (sql s)"
  shows "fst (submit U db [b] (transactionContext lq conn)) = [Inr (ok (EMPTY_RESULT U))]
         \<and> wire (snd (submit U db [b] (transactionContext lq conn))) = wire conn
         \<and> \<not> readyToExecuteTransaction (snd (submit U db [b] (transactionContext lq conn)))
         \<and> readyToExecuteTransaction (snd (submit U db [b, s] (transactionContext lq conn)))
         \<and> wire (snd (submit U db [b, s] (transactionContext lq conn))) =
             wire conn @ Query (sql b) (fixArrayBufferValues U (args b)) #
               (case db (wire conn) (sql b) (fixArrayBufferValues U (args b)) of
                  Inr r \<Rightarrow> [Query (sql s) (fixArrayBufferValues U (args s))]
                | Inl e \<Rightarrow>
                    if database_reported e
                    then [Query (sql s) (fixArrayBufferValues U (args s))]
                    else [])
         \<and> fst (submit U db [b, s] (transactionContext lq conn)) =
             [Inr (ok (EMPTY_RESULT U)),
              case db (wire conn) (sql b) (fixArrayBufferValues U (args b)) of
                Inr r \<Rightarrow>
                  try_catch (db (wire conn @ [Query (sql b) (fixArrayBufferValues U (args b))])
                               (sql s) (fixArrayBufferValues U (args s)))
              | Inl e \<Rightarrow>
                  if database_reported e
                  then try_catch (db (wire conn @ [Query (sql b) (fixArrayBufferValues U (args b))])
                                    (sql s) (fixArrayBufferValues U (args s)))
                  else Inl e]"
  using assms
  by (auto simp: performIO_eq compactPerformIOResult.simps transactionContext_def Let_def
        rewritten_text_def previous_context_comment_def truthy_def try_catch_def
        skip_context_or_query_def split: prod.splits sum.splits)

text \<open>
  The scenario of the specification: \<open>BEGIN\<close>, \<open>SELECT 1\<close>; and the same on a connection
  that is reset when asked to \<open>BEGIN\<close>.
\<close>

theorem second_statement_materializes_witness:
  "isBeginQuery utils (sql (statement ''BEGIN''))
   \<and> \<not> isContextComment utils (sql (statement ''BEGIN''))
   \<and> \<not> isContextComment utils (sql (statement ''SELECT 1''))
   \<and> \<not> readyToExecuteTransaction
         (snd (submit utils healthy [statement ''BEGIN''] (transactionContext False pooled)))
   \<and> readyToExecuteTransaction
         (snd (submit utils healthy [statement ''BEGIN'', statement ''SELECT 1'']
                 (transactionContext False pooled)))
   \<and> wire (snd (submit utils healthy [statement ''BEGIN'', statement ''SELECT 1'']
                   (transactionContext False pooled)))
       = [Query ''BEGIN'' [], Query ''SELECT 1'' []]
   \<and> wire (snd (submit utils resetting_on_begin [statement ''BEGIN'', statement ''SELECT 1'']
                   (transactionContext False pooled)))
       = [Query ''BEGIN'' []]"
proof -
  have b: "isBeginQuery utils (sql (statement ''BEGIN''))"
    "\<not> isContextComment utils (sql (statement ''BEGIN''))"
    by code_simp+
  have s: "\<not> isContextComment utils (sql (statement ''SELECT 1''))"
    by code_simp
  have calls: "wire pooled @ Query (sql (statement ''BEGIN''))
                   (fixArrayBufferValues utils (args (statement ''BEGIN''))) #
               (case healthy (wire pooled) (sql (statement ''BEGIN''))
                       (fixArrayBufferValues utils (args (statement ''BEGIN''))) of
                  Inr r \<Rightarrow> [Query (sql (statement ''SELECT 1''))
                             (fixArrayBufferValues utils (args (statement ''SELECT 1'')))]
                | Inl e \<Rightarrow>
                    if database_reported e
                    then [Query (sql (statement ''SELECT 1''))
                            (fixArrayBufferValues utils (args (statement ''SELECT 1'')))]
                    else [])
               = [Query ''BEGIN'' [], Query ''SELECT 1'' []]"
    by code_simp
  have calls_reset: "wire pooled @ Query (sql (statement ''BEGIN''))
                   (fixArrayBufferValues utils (args (statement ''BEGIN''))) #
               (case resetting_on_begin (wire pooled) (sql (statement ''BEGIN''))
                       (fixArrayBufferValues utils (args (statement ''BEGIN''))) of
                  Inr r \<Rightarrow> [Query (sql (statement ''SELECT 1''))
                             (fixArrayBufferValues utils (args (statement ''SELECT 1'')))]
                | Inl e \<Rightarrow>
                    if database_reported e
                    then [Query (sql (statement ''SELECT 1''))
                            (fixArrayBufferValues utils (args (statement ''SELECT 1'')))]
                    else [])
               = [Query ''BEGIN'' []]"
    by code_simp
  note t = second_statement_materializes [OF b s, of healthy False pooled]
  note r = second_statement_materializes [OF b s, of resetting_on_begin False pooled]
  from t have "\<not> readyToExecuteTransaction
         (snd (submit utils healthy [statement ''BEGIN''] (transactionContext False pooled)))"
    by blast
  moreover from t have "readyToExecuteTransaction
         (snd (submit utils healthy [statement ''BEGIN'', statement ''SELECT 1'']
                 (transactionContext False pooled)))"
    by blast
  moreover from t have "wire (snd (submit utils healthy [statement ''BEGIN'', statement ''SELECT 1'']
                   (transactionContext False pooled)))
       = [Query ''BEGIN'' [], Query ''SELECT 1'' []]"
    by (simp only: calls)
  moreover from r have "wire (snd (submit utils resetting_on_begin
                   [statement ''BEGIN'', statement ''SELECT 1'']
                   (transactionContext False pooled)))
       = [Query ''BEGIN'' []]"
    by (simp only: calls_reset)
  ultimately show ?thesis
    using b s by blast
qed

subsection \<open>Materialization\<close>

text \<open>
  C6. The flag \<open>readyToExecuteTransaction\<close> is false in a new session; no call of
  \<open>performIO\<close>, \<open>commit\<close> or \<open>rollback\<close> (whether the release returns or throws) turns it
  from true to false; and once it is true a BEGIN or COMMIT statement (one that is not
  also classified as a context comment or a write) is sent to the connection as it
  stands, whether submitted or replayed.
\<close>

theorem materialization_monotonic:
  "\<not> readyToExecuteTransaction (transactionContext lq conn)
   \<and> (readyToExecuteTransaction c \<longrightarrow>
        readyToExecuteTransaction (snd (performIO U db q cu c))
        \<and> readyToExecuteTransaction (snd (commit release c))
        \<and> readyToExecuteTransaction (snd (rollback release c)))
   \<and> (readyToExecuteTransaction c \<and> previousQueries c = Some prev
        \<and> (isBeginQuery U (sql q) \<or> isCommitQuery U (sql q))
        \<and> \<not> isContextComment U (sql q) \<and> \<not> isWriteQuery U (sql q) \<longrightarrow>
        wire (snd (performIO U db q cu c))
          = wire c @ [Query (sql q) (fixArrayBufferValues U (args q))])"
proof (intro conjI impI)
  show "\<not> readyToExecuteTransaction (transactionContext lq conn)"
    by (simp add: transactionContext_def)
next
  assume "readyToExecuteTransaction c"
  then show "readyToExecuteTransaction (snd (performIO U db q cu c))"
    by (simp add: ready_kept(1))
next
  assume "readyToExecuteTransaction c"
  then show "readyToExecuteTransaction (snd (commit release c))"
    by (simp add: commit_def)
next
  assume "readyToExecuteTransaction c"
  then show "readyToExecuteTransaction (snd (rollback release c))"
    by (simp add: rollback_def)
next
  assume h: "readyToExecuteTransaction c \<and> previousQueries c = Some prev
        \<and> (isBeginQuery U (sql q) \<or> isCommitQuery U (sql q))
        \<and> \<not> isContextComment U (sql q) \<and> \<not> isWriteQuery U (sql q)"
  then have "rewritten_text U prev (sql q) = Inr (sql q)"
    by (simp add: rewritten_text_not_write)
  with h show "wire (snd (performIO U db q cu c))
          = wire c @ [Query (sql q) (fixArrayBufferValues U (args q))]"
    by (simp add: performIO_ready_wire)
qed

text \<open>
  The session \<open>BEGIN\<close>, \<open>SELECT 1\<close> is materialized by its second statement; the
  \<open>COMMIT\<close> that follows is sent.
\<close>

theorem materialization_monotonic_witness:
  "readyToExecuteTransaction begin_select
   \<and> previousQueries begin_select = Some [statement ''BEGIN'', statement ''SELECT 1'']
   \<and> isCommitQuery utils (sql (statement ''COMMIT''))
   \<and> \<not> isContextComment utils (sql (statement ''COMMIT''))
   \<and> \<not> isWriteQuery utils (sql (statement ''COMMIT''))
   \<and> readyToExecuteTransaction
         (snd (performIO utils healthy (statement ''COMMIT'') False begin_select))
   \<and> wire (snd (performIO utils healthy (statement ''COMMIT'') False begin_select))
       = [Query ''BEGIN'' [], Query ''SELECT 1'' [], Query ''COMMIT'' []]"
proof -
  have ready: "readyToExecuteTransaction begin_select"
    by code_simp
  have previous:
    "previousQueries begin_select = Some [statement ''BEGIN'', statement ''SELECT 1'']"
    by code_simp
  have kind: "isCommitQuery utils (sql (statement ''COMMIT''))"
    "\<not> isContextComment utils (sql (statement ''COMMIT''))"
    "\<not> isWriteQuery utils (sql (statement ''COMMIT''))"
    by code_simp+
  have before: "wire begin_select = [Query ''BEGIN'' [], Query ''SELECT 1'' []]"
    by code_simp
  have sent: "Query (sql (statement ''COMMIT''))
                (fixArrayBufferValues utils (args (statement ''COMMIT''))) = Query ''COMMIT'' []"
    by code_simp
  note m = materialization_monotonic
             [of False pooled begin_select utils healthy "statement ''COMMIT''" False
                 releasing_once "[statement ''BEGIN'', statement ''SELECT 1'']"]
  from m ready have "readyToExecuteTransaction
       (snd (performIO utils healthy (statement ''COMMIT'') False begin_select))"
    by blast
  moreover from m ready previous kind
  have "wire (snd (performIO utils healthy (statement ''COMMIT'') False begin_select))
          = wire begin_select @ [Query (sql (statement ''COMMIT''))
                         (fixArrayBufferValues utils (args (statement ''COMMIT'')))]"
    by blast
  then have "wire (snd (performIO utils healthy (statement ''COMMIT'') False begin_select))
          = [Query ''BEGIN'' [], Query ''SELECT 1'' [], Query ''COMMIT'' []]"
    by (simp only: before sent append_Cons append_Nil)
  ultimately show ?thesis
    using ready previous kind by blast
qed

subsection \<open>Context comments\<close>

text \<open>
  The ways a context comment goes through \<open>performIO\<close>: nothing is asked of the
  connection for it, and what is asked during the replay it may start is asked for
  statements that are not context comments.
\<close>

lemma context_comment_paths:
  assumes "previousQueries c = Some prev" and "isContextComment U (sql q)"
    and "\<not> isWriteQuery U (sql q)"
  shows "(readyToExecuteTransaction c \<longrightarrow>
            fst (performIO U db q cu c) = Inr (ok (EMPTY_RESULT U))
            \<and> wire (snd (performIO U db q cu c)) = wire c)
         \<and> (length prev \<noteq> 2 \<longrightarrow>
              fst (performIO U db q False c) = Inr (ok (EMPTY_RESULT U))
              \<and> wire (snd (performIO U db q False c)) = wire c)
         \<and> (fst (performIO U db q False c) = Inr (ok (EMPTY_RESULT U))
            \<or> (\<exists>e. fst (performIO U db q False c) = Inl e \<and> \<not> database_reported e))
         \<and> (\<exists>ws. wire (snd (performIO U db q False c)) = wire c @ ws
                 \<and> (\<forall>ev\<in>set ws. \<exists>p\<in>set prev. \<not> isContextComment U (sql p)
                        \<and> (\<exists>t. rewritten_text U (prev @ [q]) (sql p) = Inr t
                               \<and> ev = Query t (fixArrayBufferValues U (args p)))))"
proof -
  have rw: "rewritten_text U prev (sql q) = Inr (sql q)"
    using assms(3) by (rule rewritten_text_not_write)
  have materialized: "fst (performIO U db q cu' c) = Inr (ok (EMPTY_RESULT U))
                      \<and> wire (snd (performIO U db q cu' c)) = wire c"
    if "readyToExecuteTransaction c" for cu'
    using that assms(1,2) rw by (simp add: performIO_ready_result performIO_ready_wire)
  have elsewhere: "fst (performIO U db q False c) = Inr (ok (EMPTY_RESULT U))
                   \<and> wire (snd (performIO U db q False c)) = wire c"
    if "\<not> readyToExecuteTransaction c" and "length prev \<noteq> 2"
    using that assms(1,2) rw
    by (simp add: performIO_eq compactPerformIOResult.simps Let_def skip_context_or_query_def)
  have third: "(fst (performIO U db q False c) = Inr (ok (EMPTY_RESULT U))
            \<or> (\<exists>e. fst (performIO U db q False c) = Inl e \<and> \<not> database_reported e))
         \<and> (\<exists>ws. wire (snd (performIO U db q False c)) = wire c @ ws
                 \<and> (\<forall>ev\<in>set ws. \<exists>p\<in>set prev. \<not> isContextComment U (sql p)
                        \<and> (\<exists>t. rewritten_text U (prev @ [q]) (sql p) = Inr t
                               \<and> ev = Query t (fixArrayBufferValues U (args p)))))"
    if unready: "\<not> readyToExecuteTransaction c" and two: "length prev = 2"
  proof -
    let ?c2 = "(logger_debug (logQueries c) (LogDebug (sql q) (Some (length prev))) c)
                 \<lparr>previousQueries := Some (prev @ [q]), readyToExecuteTransaction := True\<rparr>"
    let ?replay = "catch_up U db prev ?c2"
    have compact: "compactPerformIOResult U db q False c =
                     (case fst ?replay of
                        Inl e \<Rightarrow> (Inl e, snd ?replay)
                      | Inr u \<Rightarrow> (Inr (EMPTY_RESULT U), snd ?replay))"
      using unready two assms rw
      by (simp add: compactPerformIOResult.simps Let_def skip_context_or_query_def
            split: prod.splits sum.splits)
    have "readyToExecuteTransaction ?c2" and "previousQueries ?c2 = Some (prev @ [q])"
      by simp_all
    from replay_loop [OF this, of U db prev] obtain ws
      where thrown: "\<forall>e. fst ?replay = Inl e \<longrightarrow> \<not> database_reported e"
        and ws: "wire (snd ?replay) = wire ?c2 @ ws"
        and origin: "\<forall>ev\<in>set ws. \<exists>p\<in>set prev. \<not> isContextComment U (sql p)
                        \<and> (\<exists>t. rewritten_text U (prev @ [q]) (sql p) = Inr t
                               \<and> ev = Query t (fixArrayBufferValues U (args p)))"
      by blast
    have "fst (performIO U db q False c) = Inr (ok (EMPTY_RESULT U))
            \<or> (\<exists>e. fst (performIO U db q False c) = Inl e \<and> \<not> database_reported e)"
      using thrown by (cases "fst ?replay") (simp_all add: performIO_eq compact try_catch_def)
    moreover have "wire (snd (performIO U db q False c)) = wire c @ ws"
      using ws by (cases "fst ?replay") (simp_all add: performIO_eq compact)
    ultimately show ?thesis
      using origin by blast
  qed
  show ?thesis
  proof (cases "readyToExecuteTransaction c")
    case True
    from materialized [OF True] have "wire (snd (performIO U db q False c)) = wire c @ []"
      by simp
    with materialized [OF True] True show ?thesis
      by (metis empty_iff empty_set)
  next
    case False
    show ?thesis
    proof (cases "length prev = 2")
      case True
      with third [OF False True] False show ?thesis
        by blast
    next
      case short: False
      from elsewhere [OF False short]
      have "wire (snd (performIO U db q False c)) = wire c @ []"
        by simp
      with elsewhere [OF False short] False show ?thesis
        by (metis empty_iff empty_set)
    qed
  qed
qed

text \<open>
  C7, as the code has it. A context comment (not also classified as a write) submitted or
  replayed in a transaction session is never passed to \<open>client.query\<close>: in a
  materialized session, and in a session where it is not the third statement, its
  submission calls nothing and returns \<open>EMPTY_RESULT\<close>. As the third statement of a
  session not yet materialized it starts the replay of the two statements before it:
  every call made is for one of those, never for a context comment, and the submission
  returns \<open>EMPTY_RESULT\<close> when the replay returns and throws the exception of the replay
  when the replay throws one, which is never a database error.
\<close>

theorem context_comment_never_sent:
  assumes "previousQueries c = Some prev" and "isContextComment U (sql q)"
    and "\<not> isWriteQuery U (sql q)"
  shows "(readyToExecuteTransaction c \<longrightarrow>
            fst (performIO U db q cu c) = Inr (ok (EMPTY_RESULT U))
            \<and> wire (snd (performIO U db q cu c)) = wire c)
         \<and> (length prev \<noteq> 2 \<longrightarrow>
              fst (performIO U db q False c) = Inr (ok (EMPTY_RESULT U))
              \<and> wire (snd (performIO U db q False c)) = wire c)
         \<and> (fst (performIO U db q False c) = Inr (ok (EMPTY_RESULT U))
            \<or> (\<exists>e. fst (performIO U db q False c) = Inl e \<and> \<not> database_reported e))
         \<and> (\<exists>ws. wire (snd (performIO U db q False c)) = wire c @ ws
                 \<and> (\<forall>ev\<in>set ws. \<exists>p\<in>set prev. \<not> isContextComment U (sql p)
                        \<and> (\<exists>t. rewritten_text U (prev @ [q]) (sql p) = Inr t
                               \<and> ev = Query t (fixArrayBufferValues U (args p)))))
         \<and> (\<not> readyToExecuteTransaction c \<and> length prev = 2 \<longrightarrow>
              fst (performIO U db q False c) =
                (case fst (catch_up U db prev
                             ((logger_debug (logQueries c)
                                 (LogDebug (sql q) (Some (length prev))) c)
                                \<lparr>previousQueries := Some (prev @ [q]),
                                 readyToExecuteTransaction := True\<rparr>)) of
                   Inl e \<Rightarrow> Inl e
                 | Inr u \<Rightarrow> Inr (ok (EMPTY_RESULT U)))
              \<and> wire (snd (performIO U db q False c)) =
                  wire (snd (catch_up U db prev
                               ((logger_debug (logQueries c)
                                   (LogDebug (sql q) (Some (length prev))) c)
                                  \<lparr>previousQueries := Some (prev @ [q]),
                                   readyToExecuteTransaction := True\<rparr>))))"
proof -
  have rw: "rewritten_text U prev (sql q) = Inr (sql q)"
    using assms(3) by (rule rewritten_text_not_write)
  have third: "fst (performIO U db q False c) =
                (case fst (catch_up U db prev
                             ((logger_debug (logQueries c)
                                 (LogDebug (sql q) (Some (length prev))) c)
                                \<lparr>previousQueries := Some (prev @ [q]),
                                 readyToExecuteTransaction := True\<rparr>)) of
                   Inl e \<Rightarrow> Inl e
                 | Inr u \<Rightarrow> Inr (ok (EMPTY_RESULT U)))
              \<and> wire (snd (performIO U db q False c)) =
                  wire (snd (catch_up U db prev
                               ((logger_debug (logQueries c)
                                   (LogDebug (sql q) (Some (length prev))) c)
                                  \<lparr>previousQueries := Some (prev @ [q]),
                                   readyToExecuteTransaction := True\<rparr>)))"
    if "\<not> readyToExecuteTransaction c" and "length prev = 2"
    using that assms rw
    by (simp add: performIO_result performIO_wire Let_def split: sum.splits)
  from context_comment_paths [OF assms, of db cu] third show ?thesis
    by blast
qed

text \<open>
  A context comment submitted to a materialized session, one submitted as the fifth
  statement of a session that is not, and one submitted as the third, on a connection
  that answers and on one that is reset when asked to \<open>BEGIN\<close>.
\<close>

theorem context_comment_never_sent_witness:
  "previousQueries begin_select = Some [statement ''BEGIN'', statement ''SELECT 1'']
   \<and> isContextComment utils (sql (statement (encode [(''user'', ''2'')])))
   \<and> \<not> isWriteQuery utils (sql (statement (encode [(''user'', ''2'')])))
   \<and> readyToExecuteTransaction begin_select
   \<and> fst (performIO utils healthy (statement (encode [(''user'', ''2'')])) False begin_select)
       = Inr (ok (EMPTY_RESULT utils))
   \<and> wire (snd (performIO utils healthy (statement (encode [(''user'', ''2'')])) False
                   begin_select))
       = wire begin_select
   \<and> previousQueries two_markers =
       Some [statement ''BEGIN'', statement (encode [(''user'', ''1'')]),
             statement ''UPDATE t SET x=1'', statement (encode [(''user'', ''2'')])]
   \<and> \<not> readyToExecuteTransaction two_markers
   \<and> fst (performIO utils healthy (statement (encode [(''user'', ''2'')])) False two_markers)
       = Inr (ok (EMPTY_RESULT utils))
   \<and> wire (snd (performIO utils healthy (statement (encode [(''user'', ''2'')])) False
                   two_markers))
       = wire two_markers
   \<and> previousQueries context_given
       = Some [statement ''BEGIN'', statement (encode [(''user'', ''1'')])]
   \<and> \<not> readyToExecuteTransaction context_given
   \<and> fst (performIO utils healthy (statement (encode [(''user'', ''2'')])) False context_given)
       = Inr (ok (EMPTY_RESULT utils))
   \<and> wire (snd (performIO utils healthy (statement (encode [(''user'', ''2'')])) False
                   context_given))
       = [Query ''BEGIN'' []]
   \<and> fst (performIO utils resetting_on_begin (statement (encode [(''user'', ''2'')])) False
            context_given)
       = Inl connection_reset
   \<and> (fst (performIO utils resetting_on_begin (statement (encode [(''user'', ''2'')])) False
              context_given) = Inr (ok (EMPTY_RESULT utils))
      \<or> (\<exists>e. fst (performIO utils resetting_on_begin (statement (encode [(''user'', ''2'')]))
                      False context_given) = Inl e
              \<and> \<not> database_reported e))"
proof -
  let ?m = "statement (encode [(''user'', ''2'')])"
  have log: "previousQueries begin_select = Some [statement ''BEGIN'', statement ''SELECT 1'']"
    by code_simp
  have m: "isContextComment utils (sql ?m)" "\<not> isWriteQuery utils (sql ?m)"
    by code_simp+
  have ready: "readyToExecuteTransaction begin_select"
    by code_simp
  have log': "previousQueries context_given
                = Some [statement ''BEGIN'', statement (encode [(''user'', ''1'')])]"
    by code_simp
  have log'': "previousQueries two_markers =
       Some [statement ''BEGIN'', statement (encode [(''user'', ''1'')]),
             statement ''UPDATE t SET x=1'', statement (encode [(''user'', ''2'')])]"
    by code_simp
  have unready: "\<not> readyToExecuteTransaction two_markers"
    by code_simp
  have unready': "\<not> readyToExecuteTransaction context_given"
    "length [statement ''BEGIN'', statement (encode [(''user'', ''1'')])] = 2"
    by code_simp+
  note exact = context_comment_never_sent
                 [OF log' m, THEN conjunct2, THEN conjunct2, THEN conjunct2, THEN conjunct2,
                  THEN mp, OF conjI [OF unready']]
  have replayed: "fst (performIO utils healthy ?m False context_given)
                    = Inr (ok (EMPTY_RESULT utils))"
    by (subst exact [THEN conjunct1]) code_simp
  have replayed_calls: "wire (snd (performIO utils healthy ?m False context_given))
                          = [Query ''BEGIN'' []]"
    by (subst exact [THEN conjunct2]) code_simp
  have replay_thrown: "fst (performIO utils resetting_on_begin ?m False context_given)
                         = Inl connection_reset"
    by (subst exact [THEN conjunct1]) code_simp
  note t = context_comment_never_sent [OF log m, of healthy False]
  note t' = context_comment_never_sent [OF log' m, of resetting_on_begin False]
  note t'' = context_comment_never_sent [OF log'' m, of healthy False]
  from t''
  have later: "fst (performIO utils healthy ?m False two_markers) = Inr (ok (EMPTY_RESULT utils))
        \<and> wire (snd (performIO utils healthy ?m False two_markers)) = wire two_markers"
    by simp
  from t ready
  have "fst (performIO utils healthy ?m False begin_select) = Inr (ok (EMPTY_RESULT utils))
        \<and> wire (snd (performIO utils healthy ?m False begin_select)) = wire begin_select"
    by blast
  moreover from t'
  have "fst (performIO utils resetting_on_begin ?m False context_given)
          = Inr (ok (EMPTY_RESULT utils))
        \<or> (\<exists>e. fst (performIO utils resetting_on_begin ?m False context_given) = Inl e
                \<and> \<not> database_reported e)"
    by blast
  ultimately show ?thesis
    using log m ready log' log'' unready later unready'(1) replayed replayed_calls
      replay_thrown
    by blast
qed

text \<open>
  C7, as stated, fails: a context comment submitted as the third statement does not
  return an empty result when the connection is reset during the replay it starts.
\<close>

theorem context_comment_empty_result_counterexample:
  "isContextComment utils (sql (statement (encode [(''user'', ''2'')])))
   \<and> fst (submit utils resetting_on_begin
            [statement ''BEGIN'', statement (encode [(''user'', ''1'')]),
             statement (encode [(''user'', ''2'')])]
            (transactionContext False pooled))
       = [Inr (ok (EMPTY_RESULT utils)), Inr (ok (EMPTY_RESULT utils)), Inl connection_reset]
   \<and> Inl connection_reset \<noteq> (Inr (ok (EMPTY_RESULT utils)) :: thrown + jsval rows_result Result)
   \<and> wire (snd (submit utils resetting_on_begin
                   [statement ''BEGIN'', statement (encode [(''user'', ''1'')]),
                    statement (encode [(''user'', ''2'')])]
                   (transactionContext False pooled)))
       = [Query ''BEGIN'' []]"
  by code_simp

subsection \<open>After the session is closed\<close>

text \<open>
  C8, as the code has it. \<open>commit\<close> and \<open>rollback\<close> only record the release on the
  connection, whether it returns or throws; they leave the array, the flag and the
  logging switch as they were, and \<open>performIO\<close> has no test for a closed session. A
  statement submitted afterwards, whatever it is and whatever the state of the session,
  is treated exactly as the session would have treated it before the close, on a
  connection that has seen the release: suppressed, preceded by the replay, or sent, by
  the same rules. So in a materialized session a statement that is not a context comment
  (a write with its comment) is sent to the released connection and its answer returned;
  and in a new session closed at once, a \<open>BEGIN\<close> and a second statement that is not a
  context comment are both sent after the release.
\<close>

theorem closed_session_still_executes:
  "snd (commit release c) = c\<lparr>wire := wire c @ [Release]\<rparr>
   \<and> snd (rollback release c) = c\<lparr>wire := wire c @ [Release]\<rparr>
   \<and> performIO U db q cu (snd (commit release c))
       = performIO U db q cu (c\<lparr>wire := wire c @ [Release]\<rparr>)
   \<and> performIO U db q cu (snd (rollback release c))
       = performIO U db q cu (c\<lparr>wire := wire c @ [Release]\<rparr>)
   \<and> performIO U db q cu (c\<lparr>wire := wire c @ [Release]\<rparr>)
       = (fst (performIO U (\<lambda>history. db (released_at (length (wire c)) history)) q cu c),
          (snd (performIO U (\<lambda>history. db (released_at (length (wire c)) history)) q cu c))
            \<lparr>wire := released_at (length (wire c))
                      (wire (snd (performIO U
                                    (\<lambda>history. db (released_at (length (wire c)) history))
                                    q cu c)))\<rparr>)
   \<and> (previousQueries c = Some prev \<and> readyToExecuteTransaction c
       \<and> \<not> isContextComment U (sql q) \<and> rewritten_text U prev (sql q) = Inr t \<longrightarrow>
         fst (performIO U db q cu (snd (commit release c))) =
           try_catch (db (wire c @ [Release]) t (fixArrayBufferValues U (args q)))
         \<and> wire (snd (performIO U db q cu (snd (commit release c)))) =
             wire c @ [Release, Query t (fixArrayBufferValues U (args q))]
         \<and> fst (performIO U db q cu (snd (rollback release c))) =
             try_catch (db (wire c @ [Release]) t (fixArrayBufferValues U (args q)))
         \<and> wire (snd (performIO U db q cu (snd (rollback release c)))) =
             wire c @ [Release, Query t (fixArrayBufferValues U (args q))])
   \<and> (isBeginQuery U (sql b) \<and> \<not> isContextComment U (sql b)
       \<and> \<not> isContextComment U (sql s) \<longrightarrow>
         wire (snd (submit U db [b, s] (snd (commit release (transactionContext lq conn))))) =
           wire conn @ Release # Query (sql b) (fixArrayBufferValues U (args b)) #
             (case db (wire conn @ [Release]) (sql b) (fixArrayBufferValues U (args b)) of
                Inr r \<Rightarrow> [Query (sql s) (fixArrayBufferValues U (args s))]
              | Inl e \<Rightarrow>
                  if database_reported e
                  then [Query (sql s) (fixArrayBufferValues U (args s))]
                  else []))"
proof -
  have closing: "snd (commit release c) = c\<lparr>wire := wire c @ [Release]\<rparr>"
    "snd (rollback release c) = c\<lparr>wire := wire c @ [Release]\<rparr>"
    by (simp_all add: commit_def rollback_def)
  have same: "performIO U db q cu (c\<lparr>wire := wire c @ [Release]\<rparr>)
       = (fst (performIO U (\<lambda>history. db (released_at (length (wire c)) history)) q cu c),
          (snd (performIO U (\<lambda>history. db (released_at (length (wire c)) history)) q cu c))
            \<lparr>wire := released_at (length (wire c))
                      (wire (snd (performIO U
                                    (\<lambda>history. db (released_at (length (wire c)) history))
                                    q cu c)))\<rparr>)"
    using performIO_rewire
            [of "length (wire c)" "\<lambda>history. db (released_at (length (wire c)) history)" db c
                U q cu]
    by (simp add: rewire_def released_at_def)
  have sent: "fst (performIO U db q cu (c\<lparr>wire := wire c @ [Release]\<rparr>)) =
           try_catch (db (wire c @ [Release]) t (fixArrayBufferValues U (args q)))
         \<and> wire (snd (performIO U db q cu (c\<lparr>wire := wire c @ [Release]\<rparr>))) =
             wire c @ [Release, Query t (fixArrayBufferValues U (args q))]"
    if "previousQueries c = Some prev \<and> readyToExecuteTransaction c
       \<and> \<not> isContextComment U (sql q) \<and> rewritten_text U prev (sql q) = Inr t"
    using that by (simp add: performIO_ready_result performIO_ready_wire)
  have unmaterialized:
    "wire (snd (submit U db [b, s] (snd (commit release (transactionContext lq conn))))) =
           wire conn @ Release # Query (sql b) (fixArrayBufferValues U (args b)) #
             (case db (wire conn @ [Release]) (sql b) (fixArrayBufferValues U (args b)) of
                Inr r \<Rightarrow> [Query (sql s) (fixArrayBufferValues U (args s))]
              | Inl e \<Rightarrow>
                  if database_reported e
                  then [Query (sql s) (fixArrayBufferValues U (args s))]
                  else [])"
    if "isBeginQuery U (sql b) \<and> \<not> isContextComment U (sql b)
       \<and> \<not> isContextComment U (sql s)"
    using that
    by (auto simp: performIO_eq compactPerformIOResult.simps transactionContext_def Let_def
          commit_def rewritten_text_def previous_context_comment_def truthy_def try_catch_def
          skip_context_or_query_def split: prod.splits sum.splits)
  show ?thesis
    unfolding closing
    using same sent unmaterialized by blast
qed

text \<open>
  After the \<open>commit\<close> of a materialized session: a \<open>SELECT 2\<close>, and in a session that
  holds a context comment a write; and a new session closed at once, then \<open>BEGIN\<close> and
  \<open>SELECT 1\<close>.
\<close>

theorem closed_session_still_executes_witness:
  "previousQueries begin_select = Some [statement ''BEGIN'', statement ''SELECT 1'']
   \<and> readyToExecuteTransaction begin_select
   \<and> \<not> isContextComment utils (sql (statement ''SELECT 2''))
   \<and> fst (performIO utils healthy (statement ''SELECT 2'') False
            (snd (commit releasing_once begin_select)))
       = Inr (ok one_row)
   \<and> wire (snd (performIO utils healthy (statement ''SELECT 2'') False
                   (snd (commit releasing_once begin_select))))
       = wire begin_select @ [Release, Query ''SELECT 2'' []]
   \<and> readyToExecuteTransaction marked_select
   \<and> isWriteQuery utils (sql (statement ''UPDATE t SET x=1''))
   \<and> wire (snd (performIO utils healthy (statement ''UPDATE t SET x=1'') False
                   (snd (rollback releasing_once marked_select))))
       = wire marked_select @
         [Release,
          Query (''UPDATE t SET x=1 '' @ encode [(''SQL'', ''UPDATE t SET x=1''), (''user'', ''1'')])
            []]
   \<and> isBeginQuery utils (sql (statement ''BEGIN''))
   \<and> wire (snd (submit utils healthy [statement ''BEGIN'', statement ''SELECT 1'']
                   (snd (commit releasing_once (transactionContext False pooled)))))
       = [Release, Query ''BEGIN'' [], Query ''SELECT 1'' []]"
proof -
  let ?q = "statement ''SELECT 2''"
  let ?w = "statement ''UPDATE t SET x=1''"
  have session: "previousQueries begin_select = Some [statement ''BEGIN'', statement ''SELECT 1'']"
    "readyToExecuteTransaction begin_select"
    "\<not> isContextComment utils (sql ?q)"
    "rewritten_text utils [statement ''BEGIN'', statement ''SELECT 1''] (sql ?q)
       = Inr ''SELECT 2''"
    by code_simp+
  have marked: "previousQueries marked_select
                  = Some [statement ''BEGIN'', statement (encode [(''user'', ''1'')]),
                          statement ''SELECT 1'']"
    "readyToExecuteTransaction marked_select"
    "\<not> isContextComment utils (sql ?w)"
    "rewritten_text utils [statement ''BEGIN'', statement (encode [(''user'', ''1'')]),
                           statement ''SELECT 1''] (sql ?w)
       = Inr (''UPDATE t SET x=1 '' @
              encode [(''SQL'', ''UPDATE t SET x=1''), (''user'', ''1'')])"
    "isWriteQuery utils (sql ?w)"
    by code_simp+
  have fresh: "isBeginQuery utils (sql (statement ''BEGIN''))"
    "\<not> isContextComment utils (sql (statement ''BEGIN''))"
    "\<not> isContextComment utils (sql (statement ''SELECT 1''))"
    by code_simp+
  have answer: "try_catch (healthy (wire begin_select @ [Release]) ''SELECT 2'' [])
                  = Inr (ok one_row)"
    by code_simp
  have vals: "fixArrayBufferValues utils (args ?q) = []"
    "fixArrayBufferValues utils (args ?w) = []"
    by code_simp+
  have calls: "wire pooled @ Release # Query (sql (statement ''BEGIN''))
                   (fixArrayBufferValues utils (args (statement ''BEGIN''))) #
               (case healthy (wire pooled @ [Release]) (sql (statement ''BEGIN''))
                       (fixArrayBufferValues utils (args (statement ''BEGIN''))) of
                  Inr r \<Rightarrow> [Query (sql (statement ''SELECT 1''))
                             (fixArrayBufferValues utils (args (statement ''SELECT 1'')))]
                | Inl e \<Rightarrow>
                    if database_reported e
                    then [Query (sql (statement ''SELECT 1''))
                            (fixArrayBufferValues utils (args (statement ''SELECT 1'')))]
                    else [])
               = [Release, Query ''BEGIN'' [], Query ''SELECT 1'' []]"
    by code_simp
  note forwarded = closed_session_still_executes
      [THEN conjunct2, THEN conjunct2, THEN conjunct2, THEN conjunct2, THEN conjunct2,
       THEN conjunct1, THEN mp]
  note reopened = closed_session_still_executes
      [THEN conjunct2, THEN conjunct2, THEN conjunct2, THEN conjunct2, THEN conjunct2,
       THEN conjunct2, THEN mp]
  note t = forwarded [OF conjI [OF session(1) conjI [OF session(2)
                            conjI [OF session(3) session(4)]]],
                      of healthy False releasing_once, unfolded vals answer]
  note t' = forwarded [OF conjI [OF marked(1) conjI [OF marked(2)
                             conjI [OF marked(3) marked(4)]]],
                       of healthy False releasing_once, unfolded vals]
  note t'' = reopened [OF conjI [OF fresh(1) conjI [OF fresh(2) fresh(3)]],
                       of healthy releasing_once False pooled, unfolded calls]
  from t have "fst (performIO utils healthy ?q False (snd (commit releasing_once begin_select)))
                 = Inr (ok one_row)"
    and "wire (snd (performIO utils healthy ?q False (snd (commit releasing_once begin_select))))
          = wire begin_select @ [Release, Query ''SELECT 2'' []]"
    by blast+
  moreover from t'
  have "wire (snd (performIO utils healthy ?w False (snd (rollback releasing_once marked_select))))
       = wire marked_select @
         [Release,
          Query (''UPDATE t SET x=1 '' @ encode [(''SQL'', ''UPDATE t SET x=1''), (''user'', ''1'')])
            []]"
    by blast
  ultimately show ?thesis
    using session(1-3) marked(2,5) fresh(1) t'' by blast
qed

text \<open>
  C8, as stated, fails: the statement submitted after \<open>commit\<close> is not rejected; it
  is sent to the released connection and its result returned.
\<close>

theorem closed_session_rejects_counterexample:
  "fst (commit releasing_once begin_select) = Inr (ok ())
   \<and> wire (snd (commit releasing_once begin_select))
       = [Query ''BEGIN'' [], Query ''SELECT 1'' [], Release]
   \<and> fst (performIO utils healthy (statement ''SELECT 2'') False
            (snd (commit releasing_once begin_select)))
       = Inr (ok one_row)
   \<and> wire (snd (performIO utils healthy (statement ''SELECT 2'') False
                   (snd (commit releasing_once begin_select))))
       = [Query ''BEGIN'' [], Query ''SELECT 1'' [], Release, Query ''SELECT 2'' []]"
  by code_simp

subsection \<open>Error mapping\<close>

text \<open>
  C9. For every call of \<open>performIO\<close>, in every session and for every statement: wherever
  the call reaches \<open>client.query\<close> for its statement, it returns \<open>ok\<close> of the
  connection's result; when that call throws an error whose \<open>code\<close>, \<open>severity\<close> and
  \<open>message\<close> are strings it returns \<open>err\<close> of the Postgres error with those fields and
  \<open>detail\<close>, \<open>column\<close>, \<open>hint\<close>; any other exception is thrown on as it is. The same
  holds of an exception of the decoder; an exception that leaves the replay is thrown on
  as it is. So \<open>performIO\<close> never throws an error of that shape.
\<close>

theorem database_errors_returned:
  "fst (performIO U db q cu c) =
     (case previousQueries c of
        None \<Rightarrow> try_catch (db (wire c) (sql q) (fixArrayBufferValues U (args q)))
      | Some prev \<Rightarrow>
          (case rewritten_text U prev (sql q) of
             Inl e \<Rightarrow> try_catch (Inl e)
           | Inr t \<Rightarrow>
               let queries = (if \<not> cu then prev @ [q] else prev);
                   replay = catch_up U db (butlast queries)
                              ((logger_debug (logQueries c \<and> \<not> cu)
                                  (LogDebug (sql q) (Some (length prev))) c)
                                 \<lparr>previousQueries := Some queries,
                                  readyToExecuteTransaction := True\<rparr>)
               in if \<not> readyToExecuteTransaction c then
                    if isBeginQuery U (sql q) \<and> length queries = 1
                      then Inr (ok (EMPTY_RESULT U))
                    else if isCommitQuery U (sql q) \<and> truthy (previous_context_comment U prev)
                            \<and> length queries = 4
                      then Inr (ok (EMPTY_RESULT U))
                    else if (length queries = 2 \<and> \<not> isContextComment U (sql q))
                            \<or> (length queries = 3 \<and> \<not> isWriteQuery U (sql q))
                      then (case fst replay of
                              Inl e \<Rightarrow> Inl e
                            | Inr u \<Rightarrow>
                                if isContextComment U (sql q) then Inr (ok (EMPTY_RESULT U))
                                else try_catch (db (wire (snd replay)) t
                                                  (fixArrayBufferValues U (args q))))
                    else if isContextComment U (sql q) then Inr (ok (EMPTY_RESULT U))
                    else try_catch (db (wire c) t (fixArrayBufferValues U (args q)))
                  else if isContextComment U (sql q) then Inr (ok (EMPTY_RESULT U))
                  else try_catch (db (wire c) t (fixArrayBufferValues U (args q)))))
   \<and> (\<forall>result. try_catch (Inr result) = Inr (ok result))
   \<and> (\<forall>cd sv msg d col h.
         try_catch (Inl (ErrorObject (JStr cd) (JStr sv) (JStr msg) d col h))
           = Inr (err (Postgres cd sv msg d col h)))
   \<and> (\<forall>e. \<not> (\<exists>cd sv msg d col h. e = ErrorObject (JStr cd) (JStr sv) (JStr msg) d col h)
            \<longrightarrow> try_catch (Inl e) = Inl e)
   \<and> (case fst (performIO U db q cu c) of
         Inl e \<Rightarrow> \<not> (\<exists>cd sv msg d col h. e = ErrorObject (JStr cd) (JStr sv) (JStr msg) d col h)
       | Inr r \<Rightarrow> True)"
proof -
  have shape: "database_reported e
                 = (\<exists>cd sv msg d col h. e = ErrorObject (JStr cd) (JStr sv) (JStr msg) d col h)"
    for e
  proof (cases e)
    case (ErrorObject c1 c2 c3 c4 c5 c6)
    then show ?thesis
      by (cases c1; cases c2; cases c3) simp_all
  next
    case (Primitive v)
    then show ?thesis by simp
  qed
  have "\<forall>result. try_catch (Inr result) = Inr (ok result)"
    by simp
  moreover have "\<forall>cd sv msg d col h.
         try_catch (Inl (ErrorObject (JStr cd) (JStr sv) (JStr msg) d col h))
           = Inr (err (Postgres cd sv msg d col h))"
    by (simp add: try_catch_def to_db_error_def)
  moreover have "\<forall>e. \<not> (\<exists>cd sv msg d col h. e = ErrorObject (JStr cd) (JStr sv) (JStr msg) d col h)
            \<longrightarrow> try_catch (Inl e) = Inl e"
    unfolding shape [symmetric] by (simp add: try_catch_def)
  moreover have "case fst (performIO U db q cu c) of
         Inl e \<Rightarrow> \<not> (\<exists>cd sv msg d col h. e = ErrorObject (JStr cd) (JStr sv) (JStr msg) d col h)
       | Inr r \<Rightarrow> True"
    unfolding shape [symmetric]
    by (simp add: performIO_eq try_catch_def split: sum.splits)
  ultimately show ?thesis
    using performIO_result [of U db q cu c] by (intro conjI) assumption+
qed

text \<open>
  On the pool, a \<open>BEGIN\<close> that the database rejects comes back as an \<open>err\<close> value; so
  does, in a session not yet materialized, a write that violates a constraint, with the
  detail the database gave; in a materialized session, a \<open>BEGIN\<close> on which the
  connection is reset is thrown.
\<close>

theorem database_errors_returned_witness:
  "rejecting_begin (wire pooled) ''BEGIN'' [] = Inl too_many_connections
   \<and> fst (performIO utils rejecting_begin (statement ''BEGIN'') False pooled)
       = Inr (err (Postgres ''53300'' ''FATAL'' ''too many connections''
                     JUndefined JUndefined JUndefined))
   \<and> \<not> readyToExecuteTransaction context_given
   \<and> isWriteQuery utils (sql (statement ''UPDATE t SET x=1''))
   \<and> rejecting_update (wire context_given)
         (''UPDATE t SET x=1 '' @ encode [(''SQL'', ''UPDATE t SET x=1''), (''user'', ''1'')]) []
       = Inl duplicate_key
   \<and> fst (performIO utils rejecting_update (statement ''UPDATE t SET x=1'') False context_given)
       = Inr (err (Postgres ''23505'' ''ERROR''
                     ''duplicate key value violates unique constraint''
                     (JStr ''Key (x)=(1) already exists.'') JUndefined JUndefined))
   \<and> readyToExecuteTransaction begin_select
   \<and> resetting_on_begin (wire begin_select) ''BEGIN'' [] = Inl connection_reset
   \<and> \<not> (\<exists>cd sv msg d col h.
           connection_reset = ErrorObject (JStr cd) (JStr sv) (JStr msg) d col h)
   \<and> try_catch (Inl connection_reset)
       = (Inl connection_reset :: thrown + jsval rows_result Result)
   \<and> fst (performIO utils resetting_on_begin (statement ''BEGIN'') False begin_select)
       = Inl connection_reset"
proof -
  have answers: "rejecting_begin (wire pooled) ''BEGIN'' [] = Inl too_many_connections"
    "rejecting_update (wire context_given)
         (''UPDATE t SET x=1 '' @ encode [(''SQL'', ''UPDATE t SET x=1''), (''user'', ''1'')]) []
       = Inl duplicate_key"
    "resetting_on_begin (wire begin_select) ''BEGIN'' [] = Inl connection_reset"
    by code_simp+
  have sessions: "\<not> readyToExecuteTransaction context_given"
    "isWriteQuery utils (sql (statement ''UPDATE t SET x=1''))"
    "readyToExecuteTransaction begin_select"
    by code_simp+
  have other: "\<not> (\<exists>cd sv msg d col h.
           connection_reset = ErrorObject (JStr cd) (JStr sv) (JStr msg) d col h)"
    by (simp add: connection_reset_def)
  note every = database_errors_returned
  have pool: "fst (performIO utils rejecting_begin (statement ''BEGIN'') False pooled)
       = Inr (err (Postgres ''53300'' ''FATAL'' ''too many connections''
                     JUndefined JUndefined JUndefined))"
    by (subst every [THEN conjunct1]) code_simp
  have written: "fst (performIO utils rejecting_update (statement ''UPDATE t SET x=1'') False
                        context_given)
       = Inr (err (Postgres ''23505'' ''ERROR''
                     ''duplicate key value violates unique constraint''
                     (JStr ''Key (x)=(1) already exists.'') JUndefined JUndefined))"
    by (subst every [THEN conjunct1]) code_simp
  have reset: "fst (performIO utils resetting_on_begin (statement ''BEGIN'') False begin_select)
       = Inl connection_reset"
    by (subst every [THEN conjunct1]) code_simp
  from every [of utils healthy "statement ''BEGIN''" False pooled] other
  have rethrown: "try_catch (Inl connection_reset)
       = (Inl connection_reset :: thrown + jsval rows_result Result)"
    by blast
  from answers pool sessions written other rethrown reset show ?thesis
    by blast
qed

subsection \<open>Closing a session\<close>

text \<open>
  C10, as the code has it. \<open>commit\<close> and \<open>rollback\<close> each call \<open>client.release()\<close>,
  whatever the state of the session (materialized or not) and whether or not it was
  released before: the release is the one thing they ask of the connection, so no
  COMMIT or ROLLBACK text is sent by them, and they change nothing else of the client.
  The call returns success when the release returns, and throws what the release throws;
  a second call releases once more, and returns or throws by the same rule.
\<close>

theorem commit_rollback_only_release:
  "snd (commit release c) = c\<lparr>wire := wire c @ [Release]\<rparr>
   \<and> snd (rollback release c) = c\<lparr>wire := wire c @ [Release]\<rparr>
   \<and> fst (commit release c) = (case release (wire c) of None \<Rightarrow> Inr (ok ()) | Some e \<Rightarrow> Inl e)
   \<and> fst (rollback release c) = (case release (wire c) of None \<Rightarrow> Inr (ok ()) | Some e \<Rightarrow> Inl e)
   \<and> filter (\<lambda>ev. ev \<noteq> Release) (wire (snd (commit release c)))
       = filter (\<lambda>ev. ev \<noteq> Release) (wire c)
   \<and> filter (\<lambda>ev. ev \<noteq> Release) (wire (snd (rollback release c)))
       = filter (\<lambda>ev. ev \<noteq> Release) (wire c)
   \<and> wire (snd (commit release (snd (commit release c)))) = wire c @ [Release, Release]
   \<and> wire (snd (rollback release (snd (rollback release c)))) = wire c @ [Release, Release]
   \<and> wire (snd (rollback release (snd (commit release c)))) = wire c @ [Release, Release]
   \<and> fst (commit release (snd (commit release c)))
       = (case release (wire c @ [Release]) of None \<Rightarrow> Inr (ok ()) | Some e \<Rightarrow> Inl e)
   \<and> fst (rollback release (snd (commit release c)))
       = (case release (wire c @ [Release]) of None \<Rightarrow> Inr (ok ()) | Some e \<Rightarrow> Inl e)"
  by (simp add: commit_def rollback_def)

text \<open>
  C10, as stated, fails: on a materialized session whose client throws when released
  again, the first \<open>commit\<close> returns success and the second throws; both call the
  release and neither sends a statement.
\<close>

theorem second_commit_succeeds_counterexample:
  "readyToExecuteTransaction begin_select
   \<and> fst (commit releasing_once begin_select) = Inr (ok ())
   \<and> fst (commit releasing_once (snd (commit releasing_once begin_select)))
       = Inl already_released
   \<and> fst (rollback releasing_once (snd (commit releasing_once begin_select)))
       = Inl already_released
   \<and> wire (snd (commit releasing_once (snd (commit releasing_once begin_select))))
       = [Query ''BEGIN'' [], Query ''SELECT 1'' [], Release, Release]"
  by code_simp

end
